theory Spec2Isabelle
  imports Main "HOL-Library.AList" "HOL-Library.Word"
begin

section \<open>Package sqln: a statement cache and a transaction helper over sqlx\<close>

text \<open>
  The Go package \<^verbatim>\<open>sqln\<close> (file \<^verbatim>\<open>database.go\<close>) wraps a \<^verbatim>\<open>*sqlx.DB\<close>, keeps a map from
  query text to prepared named statements, and offers \<^verbatim>\<open>Exec\<close>, \<^verbatim>\<open>Get\<close>, \<^verbatim>\<open>Select\<close>,
  \<^verbatim>\<open>Stmt\<close>, \<^verbatim>\<open>Transact\<close> and \<^verbatim>\<open>Close\<close>.

  The embedding is sequential (one goroutine). A \<^verbatim>\<open>*Database\<close> is an address into a heap
  of \<^verbatim>\<open>Database\<close> structs; the map and the mutex a struct points to live in heaps of their
  own, so that two structs can share them, as the handle built by \<^verbatim>\<open>Transact\<close> does.
  Each heap is a list, an address is an index, and allocation appends.
  The sqlx driver is outside the package: it is a parameter of every operation, and
  every call made to it is appended, with its answer, to a trace.
\<close>

subsection \<open>Values of the collaborating libraries\<close>

type_synonym addr = nat
type_synonym conn = nat      \<comment> \<open>a non-nil \<^verbatim>\<open>*sqlx.DB\<close>\<close>
type_synonym txref = nat     \<comment> \<open>a non-nil \<^verbatim>\<open>*sqlx.Tx\<close>\<close>
type_synonym stmt = nat      \<comment> \<open>a non-nil \<^verbatim>\<open>*sqlx.NamedStmt\<close>\<close>
type_synonym ctx = nat       \<comment> \<open>a \<^verbatim>\<open>context.Context\<close>\<close>
type_synonym result = nat    \<comment> \<open>a \<^verbatim>\<open>sql.Result\<close>\<close>
type_synonym TxOptions = "nat \<times> bool"  \<comment> \<open>\<^verbatim>\<open>sql.TxOptions\<close>: isolation level, read-only flag\<close>

text \<open>An \<^verbatim>\<open>interface{}\<close> argument: nil, the empty struct, or some other value.\<close>

datatype iface = Nil | EmptyStruct | Val nat

text \<open>
  A Go \<^verbatim>\<open>error\<close> that is not nil. \<^verbatim>\<open>Err m\<close> is an error with message \<^verbatim>\<open>m\<close> and no cause
  (what \<^verbatim>\<open>errors.New\<close> builds, and what the driver and callbacks return);
  \<^verbatim>\<open>Wrapped c m\<close> is what \<^verbatim>\<open>errors.Wrapf\<close> of \<^verbatim>\<open>github.com/pkg/errors\<close> builds
  around the cause \<^verbatim>\<open>c\<close> with the formatted message \<^verbatim>\<open>m\<close>.
  A nil error is \<^term>\<open>None\<close> of type \<^typ>\<open>'a option\<close>.
\<close>

datatype error = Err string | Wrapped error string

fun Error_msg :: "error \<Rightarrow> string" where
  "Error_msg (Err m) = m"
| "Error_msg (Wrapped c m) = m @ '': '' @ Error_msg c"

fun Cause :: "error \<Rightarrow> error" where
  "Cause (Err m) = Err m"
| "Cause (Wrapped c m) = Cause c"

text \<open>The message \<^verbatim>\<open>Wrapf\<close> put in front of its cause, when the error is a wrapped one.\<close>

fun annotation :: "error \<Rightarrow> string option" where
  "annotation (Err m) = None"
| "annotation (Wrapped c m) = Some m"

definition errors_New :: "string \<Rightarrow> error" where
  "errors_New m = Err m"

text \<open>\<^verbatim>\<open>errors.Wrapf(err, format, args...)\<close> returns nil when \<^verbatim>\<open>err\<close> is nil.\<close>

definition Wrapf :: "error option \<Rightarrow> string \<Rightarrow> error option" where
  "Wrapf err m = (case err of None \<Rightarrow> None | Some e \<Rightarrow> Some (Wrapped e m))"

text \<open>\<^verbatim>\<open>fmt\<close>'s \<^verbatim>\<open>%v\<close> of an \<^verbatim>\<open>int\<close>: its decimal digits, with a minus sign when negative.\<close>

definition digit_char :: "nat \<Rightarrow> char" where
  "digit_char n = ''0123456789'' ! n"

function fmt_nat :: "nat \<Rightarrow> string" where
  "fmt_nat n = (if n < 10 then [digit_char n] else fmt_nat (n div 10) @ [digit_char (n mod 10)])"
  by pat_completeness auto
termination
  by (relation "measure (\<lambda>n. n)") auto

declare fmt_nat.simps [simp del]

definition fmt_int :: "int \<Rightarrow> string" where
  "fmt_int i = (if i < 0 then CHR ''-'' # fmt_nat (nat (- i)) else fmt_nat (nat i))"

text \<open>
  The three format strings of \<^verbatim>\<open>Transact\<close>, applied to \<^verbatim>\<open>txLvl\<close>. Go's \<^verbatim>\<open>int\<close> is taken
  to be 64 bits wide; \<^verbatim>\<open>%v\<close> prints its signed value.
\<close>

definition msg_level :: "64 word \<Rightarrow> string" where
  "msg_level txLvl = ''tx level '' @ fmt_int (sint txLvl)"

definition msg_rollback :: "64 word \<Rightarrow> string" where
  "msg_rollback txLvl = ''tx level '' @ fmt_int (sint txLvl) @ '': rollback''"

definition msg_commit :: "64 word \<Rightarrow> string" where
  "msg_commit txLvl = ''tx level '' @ fmt_int (sint txLvl) @ '': commit''"

subsection \<open>The driver and the trace of calls made to it\<close>

datatype event =
    EvPrepareNamed conn string "error + stmt"
  | EvBeginTxx conn ctx TxOptions "error + txref"
  | EvRollback txref "error option"
  | EvCommit txref "error option"
  | EvNamedStmt txref stmt stmt
  | EvExecContext stmt ctx iface "error + result"
  | EvGetContext stmt ctx iface iface "error option"
  | EvSelectContext stmt ctx iface iface "error option"
  | EvStmtClose stmt "error option"

text \<open>
  The sqlx methods the package calls. The driver is not part of the package, so its
  answers are a parameter: each answer may depend on the whole history of calls.
  \<^verbatim>\<open>NamedStmt\<close> is \<^verbatim>\<open>(*sqlx.Tx).NamedStmt\<close>, which returns the statement re-bound to the
  transaction; \<^verbatim>\<open>StmtClose\<close> is \<^verbatim>\<open>(*sqlx.NamedStmt).Close\<close>.
\<close>

record driver =
  PrepareNamed :: "event list \<Rightarrow> conn \<Rightarrow> string \<Rightarrow> error + stmt"
  BeginTxx :: "event list \<Rightarrow> conn \<Rightarrow> ctx \<Rightarrow> TxOptions \<Rightarrow> error + txref"
  Rollback :: "event list \<Rightarrow> txref \<Rightarrow> error option"
  Commit :: "event list \<Rightarrow> txref \<Rightarrow> error option"
  NamedStmt :: "event list \<Rightarrow> txref \<Rightarrow> stmt \<Rightarrow> stmt"
  ExecContext :: "event list \<Rightarrow> stmt \<Rightarrow> ctx \<Rightarrow> iface \<Rightarrow> error + result"
  GetContext :: "event list \<Rightarrow> stmt \<Rightarrow> ctx \<Rightarrow> iface \<Rightarrow> iface \<Rightarrow> error option"
  SelectContext :: "event list \<Rightarrow> stmt \<Rightarrow> ctx \<Rightarrow> iface \<Rightarrow> iface \<Rightarrow> error option"
  StmtClose :: "event list \<Rightarrow> stmt \<Rightarrow> error option"

subsection \<open>The Database struct and the state of the program\<close>

text \<open>
  The struct of \<^verbatim>\<open>database.go\<close>, field by field. A pointer field is \<^term>\<open>None\<close> when nil.
  \<^verbatim>\<open>stmtsMtx\<close> is an address in the heap of mutexes, \<^verbatim>\<open>stmts\<close> an address in the heap of
  maps (a Go map value is a reference; the nil map is \<^term>\<open>None\<close>).
\<close>

record Database =
  X :: "conn option"
  tx :: "txref option"
  txLevel :: "64 word"
  stmtsMtx :: "addr option"
  stmts :: "addr option"

text \<open>
  A Go map is stored as an association list and read with \<^const>\<open>map_of\<close>. Go leaves the
  order of \<^verbatim>\<open>range\<close> over a map open; here \<^verbatim>\<open>range\<close> visits the list in its order, and a
  statement proved for every association list holds for every order Go may choose.
  A mutex is \<^term>\<open>True\<close> while it is held.
\<close>

record world =
  handles :: "Database list"
  maps :: "(string \<times> stmt) list list"
  mutexes :: "bool list"
  trace :: "event list"

definition deref :: "'a list \<Rightarrow> addr \<Rightarrow> 'a option" where
  "deref heap a = (if a < length heap then Some (heap ! a) else None)"

definition log :: "event \<Rightarrow> world \<Rightarrow> world" where
  "log ev w = w\<lparr>trace := trace w @ [ev]\<rparr>"

text \<open>
  How a call ends: it returns, it panics (a nil pointer is dereferenced, or an entry of a
  nil map is assigned), or it never returns because it waits for a mutex that is held
  (\<^verbatim>\<open>sync.Mutex\<close> is not reentrant, and no other goroutine is there to release it).
  An address beyond the end of a heap is a pointer to nothing, which Go excludes;
  following one is treated like following nil.
\<close>

datatype 'a outcome = Returns 'a | Panics | Blocks

subsection \<open>New\<close>

text \<open>
  \<^verbatim>\<open>&Database{...}\<close> puts a new struct on the heap and yields its address.
  \<^verbatim>\<open>New(dbx)\<close> returns the address of a new struct with \<^verbatim>\<open>X: dbx\<close>, a new mutex and a new
  empty map; \<^verbatim>\<open>tx\<close> and \<^verbatim>\<open>txLevel\<close> keep their zero values.
\<close>

definition alloc_handle :: "Database \<Rightarrow> world \<Rightarrow> addr \<times> world" where
  "alloc_handle h w = (length (handles w), w\<lparr>handles := handles w @ [h]\<rparr>)"

definition New :: "conn option \<Rightarrow> world \<Rightarrow> addr \<times> world" where
  "New dbx w =
     alloc_handle
       \<lparr>X = dbx, tx = None, txLevel = 0,
        stmtsMtx = Some (length (mutexes w)), stmts = Some (length (maps w))\<rparr>
       (w\<lparr>maps := maps w @ [[]], mutexes := mutexes w @ [False]\<rparr>)"

subsection \<open>Stmt\<close>

text \<open>
  The map lookup \<^verbatim>\<open>d.stmts[query]\<close>; reading a nil map finds nothing.
\<close>

definition lookup_stmt :: "world \<Rightarrow> addr option \<Rightarrow> string \<Rightarrow> stmt option" where
  "lookup_stmt w m query =
     (case m of None \<Rightarrow> None
      | Some a \<Rightarrow> (case deref (maps w) a of None \<Rightarrow> None | Some al \<Rightarrow> map_of al query))"

text \<open>
  The body of \<^verbatim>\<open>Stmt\<close> between \<^verbatim>\<open>Lock\<close> and the deferred \<^verbatim>\<open>Unlock\<close>: return the cached
  statement, or call \<^verbatim>\<open>d.X.PrepareNamed(query)\<close>, return its error, or store and return
  its statement.
\<close>

definition Stmt_body :: "driver \<Rightarrow> Database \<Rightarrow> string \<Rightarrow> world \<Rightarrow> (error + stmt) outcome \<times> world" where
  "Stmt_body drv h query w =
     (case lookup_stmt w (stmts h) query of
        Some s \<Rightarrow> (Returns (Inr s), w)
      | None \<Rightarrow>
          (case X h of
             None \<Rightarrow> (Panics, w)
           | Some x \<Rightarrow>
               (let r = PrepareNamed drv (trace w) x query;
                    w1 = log (EvPrepareNamed x query r) w
                in case r of
                     Inl err \<Rightarrow> (Returns (Inl err), w1)
                   | Inr s \<Rightarrow>
                       (case stmts h of
                          None \<Rightarrow> (Panics, w1)
                        | Some a \<Rightarrow>
                            (case deref (maps w1) a of
                               None \<Rightarrow> (Panics, w1)
                             | Some al \<Rightarrow>
                                 (Returns (Inr s),
                                  w1\<lparr>maps := (maps w1)[a := AList.update query s al]\<rparr>))))))"

text \<open>
  \<^verbatim>\<open>d.stmtsMtx.Lock()\<close> and the deferred \<^verbatim>\<open>Unlock()\<close>, which also runs when the body
  panics, around a body \<^verbatim>\<open>body\<close> that reads the struct \<^verbatim>\<open>h\<close>.
\<close>

definition with_lock :: "addr \<Rightarrow> (Database \<Rightarrow> world \<Rightarrow> 'a outcome \<times> world) \<Rightarrow> world \<Rightarrow> 'a outcome \<times> world" where
  "with_lock d body w =
     (case deref (handles w) d of
        None \<Rightarrow> (Panics, w)
      | Some h \<Rightarrow>
          (case stmtsMtx h of
             None \<Rightarrow> (Panics, w)
           | Some mu \<Rightarrow>
               (case deref (mutexes w) mu of
                  None \<Rightarrow> (Panics, w)
                | Some held \<Rightarrow>
                    if held then (Blocks, w)
                    else (let (r, w') = body h (w\<lparr>mutexes := (mutexes w)[mu := True]\<rparr>)
                          in (r, w'\<lparr>mutexes := (mutexes w')[mu := False]\<rparr>)))))"

definition Stmt :: "driver \<Rightarrow> addr \<Rightarrow> string \<Rightarrow> world \<Rightarrow> (error + stmt) outcome \<times> world" where
  "Stmt drv d query w = with_lock d (\<lambda>h. Stmt_body drv h query) w"

subsection \<open>Exec, Get and Select\<close>

text \<open>\<^verbatim>\<open>if params == nil { params = struct{}{} }\<close>\<close>

definition default_params :: "iface \<Rightarrow> iface" where
  "default_params params = (if params = Nil then EmptyStruct else params)"

text \<open>
  The statement the operation runs on: \<^verbatim>\<open>s\<close> itself, or, when \<^verbatim>\<open>d.tx != nil\<close>, the
  statement \<^verbatim>\<open>d.tx.NamedStmt(s)\<close>. The three operations share these lines word for word.
\<close>

definition target :: "driver \<Rightarrow> addr \<Rightarrow> stmt \<Rightarrow> world \<Rightarrow> stmt outcome \<times> world" where
  "target drv d s w =
     (case deref (handles w) d of
        None \<Rightarrow> (Panics, w)
      | Some h \<Rightarrow>
          (case tx h of
             None \<Rightarrow> (Returns s, w)
           | Some t \<Rightarrow>
               (let s' = NamedStmt drv (trace w) t s
                in (Returns s', log (EvNamedStmt t s s') w))))"

definition Exec :: "driver \<Rightarrow> addr \<Rightarrow> ctx \<Rightarrow> string \<Rightarrow> iface \<Rightarrow> world \<Rightarrow> (error + result) outcome \<times> world" where
  "Exec drv d c query params w =
     (case Stmt drv d query w of
        (Returns (Inl err), w1) \<Rightarrow> (Returns (Inl err), w1)
      | (Returns (Inr s), w1) \<Rightarrow>
          (let params' = default_params params
           in case target drv d s w1 of
                (Returns s', w2) \<Rightarrow>
                  (let r = ExecContext drv (trace w2) s' c params'
                   in (Returns r, log (EvExecContext s' c params' r) w2))
              | (Panics, w2) \<Rightarrow> (Panics, w2)
              | (Blocks, w2) \<Rightarrow> (Blocks, w2))
      | (Panics, w1) \<Rightarrow> (Panics, w1)
      | (Blocks, w1) \<Rightarrow> (Blocks, w1))"

definition Get :: "driver \<Rightarrow> addr \<Rightarrow> ctx \<Rightarrow> string \<Rightarrow> iface \<Rightarrow> iface \<Rightarrow> world \<Rightarrow> error option outcome \<times> world" where
  "Get drv d c query dest params w =
     (case Stmt drv d query w of
        (Returns (Inl err), w1) \<Rightarrow> (Returns (Some err), w1)
      | (Returns (Inr s), w1) \<Rightarrow>
          (let params' = default_params params
           in case target drv d s w1 of
                (Returns s', w2) \<Rightarrow>
                  (let r = GetContext drv (trace w2) s' c dest params';
                       w3 = log (EvGetContext s' c dest params' r) w2
                   in case r of Some err \<Rightarrow> (Returns (Some err), w3)
                              | None \<Rightarrow> (Returns None, w3))
              | (Panics, w2) \<Rightarrow> (Panics, w2)
              | (Blocks, w2) \<Rightarrow> (Blocks, w2))
      | (Panics, w1) \<Rightarrow> (Panics, w1)
      | (Blocks, w1) \<Rightarrow> (Blocks, w1))"

definition Select :: "driver \<Rightarrow> addr \<Rightarrow> ctx \<Rightarrow> string \<Rightarrow> iface \<Rightarrow> iface \<Rightarrow> world \<Rightarrow> error option outcome \<times> world" where
  "Select drv d c query dest params w =
     (case Stmt drv d query w of
        (Returns (Inl err), w1) \<Rightarrow> (Returns (Some err), w1)
      | (Returns (Inr s), w1) \<Rightarrow>
          (let params' = default_params params
           in case target drv d s w1 of
                (Returns s', w2) \<Rightarrow>
                  (let r = SelectContext drv (trace w2) s' c dest params';
                       w3 = log (EvSelectContext s' c dest params' r) w2
                   in case r of Some err \<Rightarrow> (Returns (Some err), w3)
                              | None \<Rightarrow> (Returns None, w3))
              | (Panics, w2) \<Rightarrow> (Panics, w2)
              | (Blocks, w2) \<Rightarrow> (Blocks, w2))
      | (Panics, w1) \<Rightarrow> (Panics, w1)
      | (Blocks, w1) \<Rightarrow> (Blocks, w1))"

subsection \<open>Transact\<close>

text \<open>
  A unit of work is any Go function from the handle to an error: here, a function of the
  handle's address and the state, to an outcome and the state it leaves.
\<close>

type_synonym work = "addr \<Rightarrow> world \<Rightarrow> error option outcome \<times> world"

text \<open>
  What \<^verbatim>\<open>Transact\<close> does once \<^verbatim>\<open>f\<close> has come back (source lines 137 to 144): on an error,
  \<^verbatim>\<open>tx.Rollback()\<close>, and the rollback's error wrapped, or else the callback's error
  wrapped; on nil, \<^verbatim>\<open>tx.Commit()\<close> wrapped. \<^verbatim>\<open>Transact\<close> defers nothing and recovers
  nothing, so a callback that panics or blocks ends the call as it is.
\<close>

definition Transact_end :: "driver \<Rightarrow> txref \<Rightarrow> 64 word \<Rightarrow> error option outcome \<times> world \<Rightarrow> error option outcome \<times> world" where
  "Transact_end drv t txLvl fr =
     (case fr of
        (Returns (Some err), w3) \<Rightarrow>
          (let rb = Rollback drv (trace w3) t;
               w4 = log (EvRollback t rb) w3
           in case rb of
                Some err' \<Rightarrow> (Returns (Wrapf (Some err') (msg_rollback txLvl)), w4)
              | None \<Rightarrow> (Returns (Wrapf (Some err) (msg_level txLvl)), w4))
      | (Returns None, w3) \<Rightarrow>
          (let cm = Commit drv (trace w3) t
           in (Returns (Wrapf cm (msg_commit txLvl)), log (EvCommit t cm) w3))
      | (Panics, w3) \<Rightarrow> (Panics, w3)
      | (Blocks, w3) \<Rightarrow> (Blocks, w3))"

text \<open>The struct literal \<^verbatim>\<open>&Database{X: d.X, tx: tx, txLevel: txLvl, ...}\<close> of source lines 131 to 136.\<close>

definition child :: "Database \<Rightarrow> txref \<Rightarrow> 64 word \<Rightarrow> Database" where
  "child h t txLvl =
     \<lparr>X = X h, tx = Some t, txLevel = txLvl, stmtsMtx = stmtsMtx h, stmts = stmts h\<rparr>"

definition Transact :: "driver \<Rightarrow> addr \<Rightarrow> ctx \<Rightarrow> TxOptions \<Rightarrow> work \<Rightarrow> world \<Rightarrow> error option outcome \<times> world" where
  "Transact drv d c opts f w =
     (case deref (handles w) d of
        None \<Rightarrow> (Panics, w)
      | Some h \<Rightarrow>
          if tx h \<noteq> None
          then (Returns (Some (errors_New ''nested tx not currently supported'')), w)
          else
            (case X h of
               None \<Rightarrow> (Panics, w)
             | Some x \<Rightarrow>
                 (let r = BeginTxx drv (trace w) x c opts;
                      w1 = log (EvBeginTxx x c opts r) w
                  in case r of
                       Inl err \<Rightarrow> (Returns (Some err), w1)
                     | Inr t \<Rightarrow>
                         (let txLvl = txLevel h + 1;
                              (a, w2) = alloc_handle (child h t txLvl) w1
                          in Transact_end drv t txLvl (f a w2)))))"

text \<open>
  The address and the state \<^verbatim>\<open>Transact\<close> hands to the unit of work once \<^verbatim>\<open>BeginTxx\<close> has
  returned the transaction \<^verbatim>\<open>t\<close>: the call is in the trace and the new struct is on the
  heap.
\<close>

definition begun :: "Database \<Rightarrow> conn \<Rightarrow> ctx \<Rightarrow> TxOptions \<Rightarrow> txref \<Rightarrow> world \<Rightarrow> addr \<times> world" where
  "begun h x c opts t w =
     alloc_handle (child h t (txLevel h + 1)) (log (EvBeginTxx x c opts (Inr t)) w)"

subsection \<open>Close\<close>

text \<open>
  The loop of \<^verbatim>\<open>Close\<close>: \<^verbatim>\<open>stmt.Close()\<close> on each entry in turn, returning at the first
  error.
\<close>

fun Close_loop :: "driver \<Rightarrow> (string \<times> stmt) list \<Rightarrow> world \<Rightarrow> error option \<times> world" where
  "Close_loop drv [] w = (None, w)"
| "Close_loop drv ((q, s) # rest) w =
     (let r = StmtClose drv (trace w) s;
          w1 = log (EvStmtClose s r) w
      in case r of Some err \<Rightarrow> (Some err, w1) | None \<Rightarrow> Close_loop drv rest w1)"

text \<open>Ranging over a nil map runs the loop body no times.\<close>

definition Close_body :: "driver \<Rightarrow> Database \<Rightarrow> world \<Rightarrow> error option outcome \<times> world" where
  "Close_body drv h w =
     (case stmts h of
        None \<Rightarrow> (Returns None, w)
      | Some a \<Rightarrow>
          (case deref (maps w) a of
             None \<Rightarrow> (Panics, w)
           | Some al \<Rightarrow> (let (r, w1) = Close_loop drv al w in (Returns r, w1))))"

definition Close :: "driver \<Rightarrow> addr \<Rightarrow> world \<Rightarrow> error option outcome \<times> world" where
  "Close drv d w = with_lock d (Close_body drv) w"

subsection \<open>Concrete drivers, states and callers\<close>

text \<open>
  A driver on which every call succeeds; a fresh statement or transaction is numbered by
  the length of the trace at the time of the call.
\<close>

definition drv_ok :: driver where
  "drv_ok = \<lparr>PrepareNamed = (\<lambda>tr x q. Inr (length tr)),
            BeginTxx = (\<lambda>tr x c opts. Inr (length tr)),
            Rollback = (\<lambda>tr t. None),
            Commit = (\<lambda>tr t. None),
            NamedStmt = (\<lambda>tr t s. length tr),
            ExecContext = (\<lambda>tr s c p. Inr 1),
            GetContext = (\<lambda>tr s c dst p. None),
            SelectContext = (\<lambda>tr s c dst p. None),
            StmtClose = (\<lambda>tr s. None)\<rparr>"

text \<open>A driver that rejects every query text.\<close>

definition drv_bad_sql :: driver where
  "drv_bad_sql = drv_ok\<lparr>PrepareNamed := (\<lambda>tr x q. Inl (Err ''syntax error''))\<rparr>"

text \<open>Drivers on which one call of the transaction lifecycle fails.\<close>

definition drv_rollback_fails :: driver where
  "drv_rollback_fails = drv_ok\<lparr>Rollback := (\<lambda>tr t. Some (Err ''connection lost''))\<rparr>"

definition drv_commit_fails :: driver where
  "drv_commit_fails = drv_ok\<lparr>Commit := (\<lambda>tr t. Some (Err ''could not serialize''))\<rparr>"

definition drv_begin_fails :: driver where
  "drv_begin_fails = drv_ok\<lparr>BeginTxx := (\<lambda>tr x c opts. Inl (Err ''too many connections''))\<rparr>"

definition empty_world :: world where
  "empty_world = \<lparr>handles = [], maps = [], mutexes = [], trace = []\<rparr>"

text \<open>The state after \<^verbatim>\<open>New\<close> on connection 0, and the struct it built at address 0.\<close>

definition root_world :: world where
  "root_world = snd (New (Some 0) empty_world)"

definition root_handle :: Database where
  "root_handle = \<lparr>X = Some 0, tx = None, txLevel = 0, stmtsMtx = Some 0, stmts = Some 0\<rparr>"

text \<open>The state a unit of work sees when \<^verbatim>\<open>Transact\<close> on the root began transaction 7.\<close>

definition tx_world :: world where
  "tx_world = snd (alloc_handle (child root_handle 7 1) root_world)"

definition work_ok :: work where
  "work_ok a w = (Returns None, w)"

definition work_fail :: work where
  "work_fail a w = (Returns (Some (Err ''user already exists'')), w)"

text \<open>
  The state after \<^verbatim>\<open>Stmt\<close> on the root has prepared \<^verbatim>\<open>SELECT 1\<close> as statement 0, and the state
  a unit of work sees when \<^verbatim>\<open>Transact\<close> then began transaction 1.
\<close>

definition cached_world :: world where
  "cached_world =
     \<lparr>handles = [root_handle], maps = [[(''SELECT 1'', 0)]], mutexes = [False],
      trace = [EvPrepareNamed 0 ''SELECT 1'' (Inr 0)]\<rparr>"

definition cached_tx_world :: world where
  "cached_tx_world = snd (begun root_handle 0 0 (0, False) 1 cached_world)"

text \<open>
  A caller that resolves the same query \<^verbatim>\<open>n\<close> times in a row on the same handle, keeping
  every outcome; it goes no further once a call has panicked or blocked.
\<close>

fun Stmt_repeat :: "driver \<Rightarrow> addr \<Rightarrow> string \<Rightarrow> nat \<Rightarrow> world \<Rightarrow> (error + stmt) outcome list \<times> world" where
  "Stmt_repeat drv d q 0 w = ([], w)"
| "Stmt_repeat drv d q (Suc n) w =
     (case Stmt drv d q w of
        (Returns r, w1) \<Rightarrow> (let (rs, w2) = Stmt_repeat drv d q n w1 in (Returns r # rs, w2))
      | (Panics, w1) \<Rightarrow> ([Panics], w1)
      | (Blocks, w1) \<Rightarrow> ([Blocks], w1))"

text \<open>The number of \<^verbatim>\<open>PrepareNamed\<close> calls for the query \<^verbatim>\<open>q\<close> in a trace.\<close>

fun is_prepare :: "string \<Rightarrow> event \<Rightarrow> bool" where
  "is_prepare q (EvPrepareNamed x q' r) = (q' = q)"
| "is_prepare q ev = False"

definition prepare_calls :: "string \<Rightarrow> event list \<Rightarrow> nat" where
  "prepare_calls q tr = length (filter (is_prepare q) tr)"

text \<open>A driver whose first call of all fails and whose later calls succeed.\<close>

definition drv_flaky :: driver where
  "drv_flaky =
     drv_ok\<lparr>PrepareNamed :=
       (\<lambda>tr x q. if tr = [] then Inl (Err ''connection reset'') else Inr (length tr))\<rparr>"

text \<open>
  A unit of work that runs \<^verbatim>\<open>SELECT 1\<close> through \<^verbatim>\<open>Exec\<close> on the handle it is given and
  returns the error of that call, if any.
\<close>

definition work_exec :: "driver \<Rightarrow> work" where
  "work_exec drv a w =
     (case Exec drv a 0 ''SELECT 1'' Nil w of
        (Returns (Inl err), w') \<Rightarrow> (Returns (Some err), w')
      | (Returns (Inr r), w') \<Rightarrow> (Returns None, w')
      | (Panics, w') \<Rightarrow> (Panics, w')
      | (Blocks, w') \<Rightarrow> (Blocks, w'))"

text \<open>A driver on which closing a statement always fails.\<close>

definition drv_close_fails :: driver where
  "drv_close_fails = drv_ok\<lparr>StmtClose := (\<lambda>tr s. Some (Err ''bad connection''))\<rparr>"

text \<open>
  Two states of a root handle with two cached statements, one for each order in which
  \<^verbatim>\<open>range\<close> may visit them.
\<close>

definition two_world :: world where
  "two_world =
     \<lparr>handles = [root_handle], maps = [[(''SELECT 1'', 0), (''SELECT 2'', 1)]],
      mutexes = [False], trace = []\<rparr>"

definition two_world_rev :: world where
  "two_world_rev =
     \<lparr>handles = [root_handle], maps = [[(''SELECT 2'', 1), (''SELECT 1'', 0)]],
      mutexes = [False], trace = []\<rparr>"

text \<open>The trace of a run of successful \<^verbatim>\<open>Close\<close> calls on the statements of the entries.\<close>

definition closed_ok :: "(string \<times> stmt) list \<Rightarrow> event list" where
  "closed_ok al = map (\<lambda>(q, s). EvStmtClose s None) al"

subsection \<open>Callers of the public API\<close>

text \<open>
  The struct's fields \<^verbatim>\<open>tx\<close>, \<^verbatim>\<open>txLevel\<close>, \<^verbatim>\<open>stmtsMtx\<close> and \<^verbatim>\<open>stmts\<close> are not exported, so code
  outside the package cannot set them: it gets its handles from \<^verbatim>\<open>New\<close> and from
  \<^verbatim>\<open>Transact\<close>, and works on them through the methods. Such a caller is a program that
  makes one call after another, each next step chosen from the result of the call
  before; \<^verbatim>\<open>bind_op\<close> is that sequencing. The unit of work passed to \<^verbatim>\<open>Transact\<close> is a
  caller of the same kind, for every handle it may be given.
\<close>

type_synonym prog = "world \<Rightarrow> error option outcome \<times> world"

definition bind_op :: "(world \<Rightarrow> 'r \<times> world) \<Rightarrow> ('r \<Rightarrow> world \<Rightarrow> 'b \<times> world) \<Rightarrow> world \<Rightarrow> 'b \<times> world" where
  "bind_op op k w = (case op w of (r, w') \<Rightarrow> k r w')"

inductive client :: "driver \<Rightarrow> prog \<Rightarrow> bool" for drv :: driver where
  ret: "client drv (\<lambda>w. (r, w))"
| new: "(\<And>n. client drv (k n)) \<Longrightarrow> client drv (bind_op (New dbx) k)"
| stmt: "(\<And>r. client drv (k r)) \<Longrightarrow> client drv (bind_op (Stmt drv d q) k)"
| exec: "(\<And>r. client drv (k r)) \<Longrightarrow> client drv (bind_op (Exec drv d c q p) k)"
| get: "(\<And>r. client drv (k r)) \<Longrightarrow> client drv (bind_op (Get drv d c q dst p) k)"
| select: "(\<And>r. client drv (k r)) \<Longrightarrow> client drv (bind_op (Select drv d c q dst p) k)"
| close: "(\<And>r. client drv (k r)) \<Longrightarrow> client drv (bind_op (Close drv d) k)"
| transact: "(\<And>a. client drv (g a)) \<Longrightarrow> (\<And>r. client drv (k r)) \<Longrightarrow>
     client drv (bind_op (Transact drv d c opts g) k)"

text \<open>
  The invariant of a struct: no transaction at depth 0, or a transaction at depth 1.
\<close>

definition handle_ok :: "Database \<Rightarrow> bool" where
  "handle_ok h = (case tx h of None \<Rightarrow> txLevel h = 0 | Some t \<Rightarrow> txLevel h = 1)"

definition world_ok :: "world \<Rightarrow> bool" where
  "world_ok w = list_all handle_ok (handles w)"

text \<open>
  A caller: \<^verbatim>\<open>New\<close>, then \<^verbatim>\<open>Stmt\<close> on \<^verbatim>\<open>SELECT 1\<close>, then \<^verbatim>\<open>Transact\<close> with a unit of work that
  runs the query through \<^verbatim>\<open>Exec\<close>.
\<close>

definition result_error :: "(error + result) outcome \<Rightarrow> prog" where
  "result_error r w =
     (case r of
        Returns (Inl err) \<Rightarrow> (Returns (Some err), w)
      | Returns (Inr x) \<Rightarrow> (Returns None, w)
      | Panics \<Rightarrow> (Panics, w)
      | Blocks \<Rightarrow> (Blocks, w))"

definition example_prog :: prog where
  "example_prog =
     bind_op (New (Some 0)) (\<lambda>n.
       bind_op (Stmt drv_ok n ''SELECT 1'') (\<lambda>r.
         bind_op (Transact drv_ok n 0 (0, False) (work_exec drv_ok)) (\<lambda>r w. (r, w))))"

section \<open>Properties\<close>

subsection \<open>Auxiliary facts\<close>

lemma root_world_eq:
  "root_world = \<lparr>handles = [root_handle], maps = [[]], mutexes = [False], trace = []\<rparr>"
  by (simp add: root_world_def New_def alloc_handle_def empty_world_def root_handle_def)

lemma with_lock_free:
  assumes "deref (handles w) d = Some h" and "stmtsMtx h = Some mu"
    and "deref (mutexes w) mu = Some False"
  shows "with_lock d body w =
           (let (r, w') = body h (w\<lparr>mutexes := (mutexes w)[mu := True]\<rparr>)
            in (r, w'\<lparr>mutexes := (mutexes w')[mu := False]\<rparr>))"
  using assms by (simp add: with_lock_def)

lemma unlock_free:
  assumes "deref ms mu = Some False"
  shows "ms[mu := False] = ms"
  using assms by (simp add: deref_def list_update_same_conv split: if_splits)

lemma update_absent:
  "map_of al q = None \<Longrightarrow> AList.update q s al = al @ [(q, s)]"
  by (induction al) (auto split: if_splits)

lemma Stmt_body_absent:
  assumes "stmts h = Some a" and "deref (maps w) a = Some al" and "map_of al q = None"
    and "X h = Some x"
  shows "Stmt_body drv h q w =
     (case PrepareNamed drv (trace w) x q of
        Inl err \<Rightarrow> (Returns (Inl err), log (EvPrepareNamed x q (Inl err)) w)
      | Inr s \<Rightarrow> (Returns (Inr s),
           (log (EvPrepareNamed x q (Inr s)) w)\<lparr>maps := (maps w)[a := al @ [(q, s)]]\<rparr>))"
  using assms
  by (simp add: Stmt_body_def lookup_stmt_def log_def Let_def deref_def update_absent
           split: sum.splits if_splits)

lemma Transact_begun:
  assumes "deref (handles w) d = Some h" and "tx h = None" and "X h = Some x"
    and "BeginTxx drv (trace w) x c opts = Inr t"
  shows "Transact drv d c opts f w =
           Transact_end drv t (txLevel h + 1) (case begun h x c opts t w of (a, w2) \<Rightarrow> f a w2)"
  using assms by (simp add: Transact_def begun_def Let_def split: prod.splits)

lemma msg_level_1: "msg_level 1 = ''tx level 1''"
  by (simp add: msg_level_def fmt_int_def fmt_nat.simps digit_char_def)
lemma msg_rollback_1: "msg_rollback 1 = ''tx level 1: rollback''"
  by (simp add: msg_rollback_def fmt_int_def fmt_nat.simps digit_char_def)
lemma msg_commit_1: "msg_commit 1 = ''tx level 1: commit''"
  by (simp add: msg_commit_def fmt_int_def fmt_nat.simps digit_char_def)

subsection \<open>Nested transactions are refused\<close>

text \<open>
  Claim C2. When the struct at \<^verbatim>\<open>d\<close> has its \<^verbatim>\<open>tx\<close> field set, \<^verbatim>\<open>Transact\<close> returns the error
  \<^verbatim>\<open>nested tx not currently supported\<close> and leaves the whole state as it was: the trace has
  no new \<^verbatim>\<open>BeginTxx\<close>, no struct is allocated, and the result is the same whatever the
  unit of work \<^verbatim>\<open>f\<close> is, so \<^verbatim>\<open>f\<close> has not run.
\<close>

theorem Transact_nested_rejected:
  assumes "deref (handles w) d = Some h" and "tx h = Some t"
  shows "Transact drv d c opts f w =
           (Returns (Some (errors_New ''nested tx not currently supported'')), w)"
  using assms by (simp add: Transact_def)

theorem Transact_nested_rejected_witness:
  "deref (handles tx_world) 1 = Some (child root_handle 7 1) \<and> tx (child root_handle 7 1) = Some 7 \<and>
   Transact drv_ok 1 0 (0, False) work_ok tx_world =
     (Returns (Some (errors_New ''nested tx not currently supported'')), tx_world)"
proof -
  have a: "deref (handles tx_world) 1 = Some (child root_handle 7 1)"
    by (simp add: tx_world_def alloc_handle_def root_world_eq deref_def)
  have b: "tx (child root_handle 7 1) = Some 7"
    by (simp add: child_def)
  from Transact_nested_rejected [OF a b] a b show ?thesis by simp
qed

subsection \<open>Stmt on a query that is not cached\<close>

text \<open>
  Claim C6. Let the struct at \<^verbatim>\<open>d\<close> have a free mutex, a map without an entry for \<^verbatim>\<open>q\<close>
  and the connection \<^verbatim>\<open>x\<close>; its \<^verbatim>\<open>tx\<close> field may be set or not. Then \<^verbatim>\<open>Stmt\<close> makes exactly
  one driver call, \<^verbatim>\<open>PrepareNamed\<close> on the connection \<^verbatim>\<open>x\<close>. When that call fails, \<^verbatim>\<open>Stmt\<close>
  returns its error and the maps are unchanged; when it succeeds with \<^verbatim>\<open>s\<close>, \<^verbatim>\<open>Stmt\<close>
  returns \<^verbatim>\<open>s\<close>, the map has the new entry from \<^verbatim>\<open>q\<close> to \<^verbatim>\<open>s\<close>, and nothing else changes.
\<close>

theorem Stmt_absent:
  assumes "deref (handles w) d = Some h"
    and "stmtsMtx h = Some mu" and "deref (mutexes w) mu = Some False"
    and "stmts h = Some a" and "deref (maps w) a = Some al" and "map_of al q = None"
    and "X h = Some x"
  shows "(\<forall>err. PrepareNamed drv (trace w) x q = Inl err \<longrightarrow>
            Stmt drv d q w = (Returns (Inl err), log (EvPrepareNamed x q (Inl err)) w) \<and>
            maps (snd (Stmt drv d q w)) = maps w) \<and>
         (\<forall>s. PrepareNamed drv (trace w) x q = Inr s \<longrightarrow>
            Stmt drv d q w =
              (Returns (Inr s),
               (log (EvPrepareNamed x q (Inr s)) w)\<lparr>maps := (maps w)[a := al @ [(q, s)]]\<rparr>) \<and>
            lookup_stmt (snd (Stmt drv d q w)) (stmts h) q = Some s)"
proof -
  have m: "deref (maps (w\<lparr>mutexes := (mutexes w)[mu := True]\<rparr>)) a = Some al"
    using assms(5) by simp
  have b: "Stmt drv d q w =
     (let (r, w') = Stmt_body drv h q (w\<lparr>mutexes := (mutexes w)[mu := True]\<rparr>)
      in (r, w'\<lparr>mutexes := (mutexes w')[mu := False]\<rparr>))"
    unfolding Stmt_def using assms(1-3) by (rule with_lock_free)
  show ?thesis
    unfolding b Stmt_body_absent [OF assms(4) m assms(6) assms(7)]
    using assms(4,5,6)
    by (auto simp: log_def unlock_free [OF assms(3)] lookup_stmt_def deref_def map_add_def
             split: if_splits)
qed

theorem Stmt_absent_witness:
  "deref (handles root_world) 0 = Some root_handle \<and> stmtsMtx root_handle = Some 0 \<and>
   deref (mutexes root_world) 0 = Some False \<and> stmts root_handle = Some 0 \<and>
   deref (maps root_world) 0 = Some [] \<and> map_of [] ''SELECT 1'' = (None :: stmt option) \<and>
   X root_handle = Some 0 \<and>
   Stmt drv_ok 0 ''SELECT 1'' root_world =
     (Returns (Inr 0),
      (log (EvPrepareNamed 0 ''SELECT 1'' (Inr 0)) root_world)\<lparr>maps := [[(''SELECT 1'', 0)]]\<rparr>) \<and>
   Stmt drv_bad_sql 0 ''SELECT 1'' root_world =
     (Returns (Inl (Err ''syntax error'')),
      log (EvPrepareNamed 0 ''SELECT 1'' (Inl (Err ''syntax error''))) root_world)"
proof -
  have h1: "deref (handles root_world) 0 = Some root_handle"
    and h3: "deref (mutexes root_world) 0 = Some False"
    and h5: "deref (maps root_world) 0 = Some []"
    by (simp_all add: root_world_eq deref_def)
  have h2: "stmtsMtx root_handle = Some 0" and h4: "stmts root_handle = Some 0"
    and h7: "X root_handle = Some 0"
    by (simp_all add: root_handle_def)
  have h6: "map_of [] ''SELECT 1'' = (None :: stmt option)" by simp
  have p1: "PrepareNamed drv_ok (trace root_world) 0 ''SELECT 1'' = Inr 0"
    by (simp add: drv_ok_def root_world_eq)
  have p2: "PrepareNamed drv_bad_sql (trace root_world) 0 ''SELECT 1'' = Inl (Err ''syntax error'')"
    by (simp add: drv_bad_sql_def)
  have m: "maps root_world = [[]]" by (simp add: root_world_eq)
  from Stmt_absent [OF h1 h2 h3 h4 h5 h6 h7, of drv_ok] p1
  have a: "Stmt drv_ok 0 ''SELECT 1'' root_world =
     (Returns (Inr 0),
      (log (EvPrepareNamed 0 ''SELECT 1'' (Inr 0)) root_world)\<lparr>maps := [[(''SELECT 1'', 0)]]\<rparr>)"
    by (simp add: m)
  from Stmt_absent [OF h1 h2 h3 h4 h5 h6 h7, of drv_bad_sql] p2
  have b: "Stmt drv_bad_sql 0 ''SELECT 1'' root_world =
     (Returns (Inl (Err ''syntax error'')),
      log (EvPrepareNamed 0 ''SELECT 1'' (Inl (Err ''syntax error''))) root_world)"
    by simp
  from h1 h2 h3 h4 h5 h6 h7 a b show ?thesis by simp
qed

subsection \<open>A unit of work that returns an error\<close>

text \<open>
  Claim C1. Let \<^verbatim>\<open>Transact\<close> pass its check and begin the transaction \<^verbatim>\<open>t\<close>, and let the
  unit of work return the error \<^verbatim>\<open>err\<close>. Then \<^verbatim>\<open>Transact\<close> calls \<^verbatim>\<open>t.Rollback()\<close>, once, and
  nothing else. When the rollback fails with \<^verbatim>\<open>rerr\<close>, the returned error wraps \<^verbatim>\<open>rerr\<close>
  with the message \<^verbatim>\<open>tx level N: rollback\<close>, where \<^verbatim>\<open>N\<close> is the depth of the new handle; its
  text and its cause are those of \<^verbatim>\<open>rerr\<close>, and \<^verbatim>\<open>err\<close> does not occur in it. When the
  rollback succeeds, the returned error wraps \<^verbatim>\<open>err\<close> with the message \<^verbatim>\<open>tx level N\<close>.
\<close>

theorem Transact_callback_error:
  assumes "deref (handles w) d = Some h" and "tx h = None" and "X h = Some x"
    and "BeginTxx drv (trace w) x c opts = Inr t"
    and "begun h x c opts t w = (a, w2)"
    and "f a w2 = (Returns (Some err), w3)"
  shows "(\<forall>rerr. Rollback drv (trace w3) t = Some rerr \<longrightarrow>
            Transact drv d c opts f w =
              (Returns (Some (Wrapped rerr (msg_rollback (txLevel h + 1)))),
               log (EvRollback t (Some rerr)) w3) \<and>
            Error_msg (Wrapped rerr (msg_rollback (txLevel h + 1))) =
              ''tx level '' @ fmt_int (sint (txLevel h + 1)) @ '': rollback: '' @ Error_msg rerr \<and>
            Cause (Wrapped rerr (msg_rollback (txLevel h + 1))) = Cause rerr) \<and>
         (Rollback drv (trace w3) t = None \<longrightarrow>
            Transact drv d c opts f w =
              (Returns (Some (Wrapped err (msg_level (txLevel h + 1)))),
               log (EvRollback t None) w3) \<and>
            Error_msg (Wrapped err (msg_level (txLevel h + 1))) =
              ''tx level '' @ fmt_int (sint (txLevel h + 1)) @ '': '' @ Error_msg err \<and>
            Cause (Wrapped err (msg_level (txLevel h + 1))) = Cause err)"
  unfolding Transact_begun [OF assms(1-4)] assms(5)
  by (simp add: assms(6) Transact_end_def Wrapf_def msg_rollback_def msg_level_def)

theorem Transact_callback_error_witness:
  "deref (handles root_world) 0 = Some root_handle \<and> tx root_handle = None \<and>
   X root_handle = Some 0 \<and>
   BeginTxx drv_rollback_fails (trace root_world) 0 0 (0, False) = Inr 0 \<and>
   BeginTxx drv_ok (trace root_world) 0 0 (0, False) = Inr 0 \<and>
   begun root_handle 0 0 (0, False) 0 root_world =
     (1, snd (begun root_handle 0 0 (0, False) 0 root_world)) \<and>
   work_fail 1 (snd (begun root_handle 0 0 (0, False) 0 root_world)) =
     (Returns (Some (Err ''user already exists'')),
      snd (begun root_handle 0 0 (0, False) 0 root_world)) \<and>
   Transact drv_rollback_fails 0 0 (0, False) work_fail root_world =
     (Returns (Some (Wrapped (Err ''connection lost'') ''tx level 1: rollback'')),
      log (EvRollback 0 (Some (Err ''connection lost'')))
        (snd (begun root_handle 0 0 (0, False) 0 root_world))) \<and>
   Error_msg (Wrapped (Err ''connection lost'') ''tx level 1: rollback'') =
     ''tx level 1: rollback: connection lost'' \<and>
   Transact drv_ok 0 0 (0, False) work_fail root_world =
     (Returns (Some (Wrapped (Err ''user already exists'') ''tx level 1'')),
      log (EvRollback 0 None) (snd (begun root_handle 0 0 (0, False) 0 root_world))) \<and>
   Error_msg (Wrapped (Err ''user already exists'') ''tx level 1'') =
     ''tx level 1: user already exists''"
proof -
  let ?w2 = "snd (begun root_handle 0 0 (0, False) 0 root_world)"
  have h1: "deref (handles root_world) 0 = Some root_handle"
    by (simp add: root_world_eq deref_def)
  have h2: "tx root_handle = None" and h3: "X root_handle = Some 0"
    and lv: "txLevel root_handle + 1 = 1"
    by (simp_all add: root_handle_def)
  have b1: "BeginTxx drv_rollback_fails (trace root_world) 0 0 (0, False) = Inr 0"
    and b2: "BeginTxx drv_ok (trace root_world) 0 0 (0, False) = Inr 0"
    by (simp_all add: drv_rollback_fails_def drv_ok_def root_world_eq)
  have g: "begun root_handle 0 0 (0, False) 0 root_world = (1, ?w2)"
    by (simp add: begun_def alloc_handle_def log_def root_world_eq)
  have f: "work_fail 1 ?w2 = (Returns (Some (Err ''user already exists'')), ?w2)"
    by (simp add: work_fail_def)
  have r1: "Rollback drv_rollback_fails (trace ?w2) 0 = Some (Err ''connection lost'')"
    and r2: "Rollback drv_ok (trace ?w2) 0 = None"
    by (simp_all add: drv_rollback_fails_def drv_ok_def)
  from Transact_callback_error [where f = work_fail, OF h1 h2 h3 b1 g f] r1
  have a: "Transact drv_rollback_fails 0 0 (0, False) work_fail root_world =
     (Returns (Some (Wrapped (Err ''connection lost'') ''tx level 1: rollback'')),
      log (EvRollback 0 (Some (Err ''connection lost''))) ?w2)"
    by (simp add: lv msg_rollback_1)
  from Transact_callback_error [where f = work_fail, OF h1 h2 h3 b2 g f] r2
  have b: "Transact drv_ok 0 0 (0, False) work_fail root_world =
     (Returns (Some (Wrapped (Err ''user already exists'') ''tx level 1'')),
      log (EvRollback 0 None) ?w2)"
    by (simp add: lv msg_level_1)
  from h1 h2 h3 b1 b2 g f a b show ?thesis by simp
qed


subsection \<open>Errors of begin, commit and rollback\<close>

text \<open>
  Claim C7 says that a failure of begin, of commit and of rollback is each returned with
  the nesting depth. With a driver that refuses to begin a transaction, \<^verbatim>\<open>Transact\<close>
  returns the driver's error as it is: an error without a wrapper, whose text is the
  driver's text.
\<close>

theorem Transact_begin_error_counterexample:
  "Transact drv_begin_fails 0 0 (0, False) work_ok root_world =
     (Returns (Some (Err ''too many connections'')),
      log (EvBeginTxx 0 0 (0, False) (Inl (Err ''too many connections''))) root_world) \<and>
   Error_msg (Err ''too many connections'') = ''too many connections'' \<and>
   annotation (Err ''too many connections'') = None"
  by (simp add: Transact_def root_world_eq deref_def root_handle_def drv_begin_fails_def)

text \<open>
  Claim C7, amended. Let the struct at \<^verbatim>\<open>d\<close> have no transaction and the connection \<^verbatim>\<open>x\<close>.
  A failure of \<^verbatim>\<open>BeginTxx\<close> is returned unchanged, with no depth. When the unit of work
  returns nil, \<^verbatim>\<open>Transact\<close> calls \<^verbatim>\<open>Commit\<close>; a failure of it is returned wrapped with the
  message \<^verbatim>\<open>tx level N: commit\<close>, and otherwise \<^verbatim>\<open>Transact\<close> returns nil. When the unit of
  work returns an error and \<^verbatim>\<open>Rollback\<close> fails, that failure is returned wrapped with the
  message \<^verbatim>\<open>tx level N: rollback\<close>. \<^verbatim>\<open>N\<close> is the depth of the struct at \<^verbatim>\<open>d\<close> plus one.
\<close>

theorem Transact_lifecycle_errors:
  assumes "deref (handles w) d = Some h" and "tx h = None" and "X h = Some x"
  shows "(\<forall>err. BeginTxx drv (trace w) x c opts = Inl err \<longrightarrow>
            Transact drv d c opts f w =
              (Returns (Some err), log (EvBeginTxx x c opts (Inl err)) w)) \<and>
         (\<forall>t a w2 w3.
            BeginTxx drv (trace w) x c opts = Inr t \<and> begun h x c opts t w = (a, w2) \<and>
            f a w2 = (Returns None, w3) \<longrightarrow>
            Transact drv d c opts f w =
              (Returns (case Commit drv (trace w3) t of
                          None \<Rightarrow> None
                        | Some cerr \<Rightarrow> Some (Wrapped cerr (msg_commit (txLevel h + 1)))),
               log (EvCommit t (Commit drv (trace w3) t)) w3)) \<and>
         (\<forall>t a w2 w3 err rerr.
            BeginTxx drv (trace w) x c opts = Inr t \<and> begun h x c opts t w = (a, w2) \<and>
            f a w2 = (Returns (Some err), w3) \<and> Rollback drv (trace w3) t = Some rerr \<longrightarrow>
            Transact drv d c opts f w =
              (Returns (Some (Wrapped rerr (msg_rollback (txLevel h + 1)))),
               log (EvRollback t (Some rerr)) w3))"
proof (intro conjI allI impI)
  fix err
  assume "BeginTxx drv (trace w) x c opts = Inl err"
  with assms show "Transact drv d c opts f w =
      (Returns (Some err), log (EvBeginTxx x c opts (Inl err)) w)"
    by (simp add: Transact_def)
next
  fix t a w2 w3
  assume "BeginTxx drv (trace w) x c opts = Inr t \<and> begun h x c opts t w = (a, w2) \<and>
          f a w2 = (Returns None, w3)"
  then have b: "BeginTxx drv (trace w) x c opts = Inr t" and g: "begun h x c opts t w = (a, w2)"
    and r: "f a w2 = (Returns None, w3)"
    by simp_all
  show "Transact drv d c opts f w =
      (Returns (case Commit drv (trace w3) t of
                  None \<Rightarrow> None
                | Some cerr \<Rightarrow> Some (Wrapped cerr (msg_commit (txLevel h + 1)))),
       log (EvCommit t (Commit drv (trace w3) t)) w3)"
    unfolding Transact_begun [OF assms b] g
    by (simp add: r Transact_end_def Wrapf_def Let_def)
next
  fix t a w2 w3 err rerr
  assume "BeginTxx drv (trace w) x c opts = Inr t \<and> begun h x c opts t w = (a, w2) \<and>
          f a w2 = (Returns (Some err), w3) \<and> Rollback drv (trace w3) t = Some rerr"
  then have b: "BeginTxx drv (trace w) x c opts = Inr t" and g: "begun h x c opts t w = (a, w2)"
    and r: "f a w2 = (Returns (Some err), w3)" and rb: "Rollback drv (trace w3) t = Some rerr"
    by simp_all
  show "Transact drv d c opts f w =
      (Returns (Some (Wrapped rerr (msg_rollback (txLevel h + 1)))),
       log (EvRollback t (Some rerr)) w3)"
    unfolding Transact_begun [OF assms b] g
    by (simp add: r rb Transact_end_def Wrapf_def Let_def)
qed

theorem Transact_lifecycle_errors_witness:
  "deref (handles root_world) 0 = Some root_handle \<and> tx root_handle = None \<and>
   X root_handle = Some 0 \<and>
   Transact drv_begin_fails 0 0 (0, False) work_ok root_world =
     (Returns (Some (Err ''too many connections'')),
      log (EvBeginTxx 0 0 (0, False) (Inl (Err ''too many connections''))) root_world) \<and>
   Transact drv_commit_fails 0 0 (0, False) work_ok root_world =
     (Returns (Some (Wrapped (Err ''could not serialize'') ''tx level 1: commit'')),
      log (EvCommit 0 (Some (Err ''could not serialize'')))
        (snd (begun root_handle 0 0 (0, False) 0 root_world))) \<and>
   Transact drv_ok 0 0 (0, False) work_ok root_world =
     (Returns None, log (EvCommit 0 None) (snd (begun root_handle 0 0 (0, False) 0 root_world))) \<and>
   Transact drv_rollback_fails 0 0 (0, False) work_fail root_world =
     (Returns (Some (Wrapped (Err ''connection lost'') ''tx level 1: rollback'')),
      log (EvRollback 0 (Some (Err ''connection lost'')))
        (snd (begun root_handle 0 0 (0, False) 0 root_world)))"
proof -
  let ?w2 = "snd (begun root_handle 0 0 (0, False) 0 root_world)"
  have h1: "deref (handles root_world) 0 = Some root_handle"
    by (simp add: root_world_eq deref_def)
  have h2: "tx root_handle = None" and h3: "X root_handle = Some 0"
    and lv: "txLevel root_handle + 1 = 1"
    by (simp_all add: root_handle_def)
  have g: "begun root_handle 0 0 (0, False) 0 root_world = (1, ?w2)"
    by (simp add: begun_def alloc_handle_def log_def root_world_eq)
  have b0: "BeginTxx drv_begin_fails (trace root_world) 0 0 (0, False) =
              Inl (Err ''too many connections'')"
    and b1: "BeginTxx drv_commit_fails (trace root_world) 0 0 (0, False) = Inr 0"
    and b2: "BeginTxx drv_ok (trace root_world) 0 0 (0, False) = Inr 0"
    and b3: "BeginTxx drv_rollback_fails (trace root_world) 0 0 (0, False) = Inr 0"
    by (simp_all add: drv_begin_fails_def drv_commit_fails_def drv_rollback_fails_def
          drv_ok_def root_world_eq)
  have f1: "work_ok 1 ?w2 = (Returns None, ?w2)"
    and f2: "work_fail 1 ?w2 = (Returns (Some (Err ''user already exists'')), ?w2)"
    by (simp_all add: work_ok_def work_fail_def)
  have c1: "Commit drv_commit_fails (trace ?w2) 0 = Some (Err ''could not serialize'')"
    and c2: "Commit drv_ok (trace ?w2) 0 = None"
    and r3: "Rollback drv_rollback_fails (trace ?w2) 0 = Some (Err ''connection lost'')"
    by (simp_all add: drv_commit_fails_def drv_rollback_fails_def drv_ok_def)
  note T = Transact_lifecycle_errors [OF h1 h2 h3]
  from T [where f = work_ok and drv = drv_begin_fails and c = 0 and opts = "(0, False)"] b0
  have a0: "Transact drv_begin_fails 0 0 (0, False) work_ok root_world =
     (Returns (Some (Err ''too many connections'')),
      log (EvBeginTxx 0 0 (0, False) (Inl (Err ''too many connections''))) root_world)"
    by blast
  from T [where f = work_ok and drv = drv_commit_fails and c = 0 and opts = "(0, False)"]
    b1 g f1
  have a1: "Transact drv_commit_fails 0 0 (0, False) work_ok root_world =
     (Returns (case Commit drv_commit_fails (trace ?w2) 0 of
                  None \<Rightarrow> None
                | Some cerr \<Rightarrow> Some (Wrapped cerr (msg_commit (txLevel root_handle + 1)))),
      log (EvCommit 0 (Commit drv_commit_fails (trace ?w2) 0)) ?w2)"
    by blast
  from T [where f = work_ok and drv = drv_ok and c = 0 and opts = "(0, False)"] b2 g f1
  have a2: "Transact drv_ok 0 0 (0, False) work_ok root_world =
     (Returns (case Commit drv_ok (trace ?w2) 0 of
                  None \<Rightarrow> None
                | Some cerr \<Rightarrow> Some (Wrapped cerr (msg_commit (txLevel root_handle + 1)))),
      log (EvCommit 0 (Commit drv_ok (trace ?w2) 0)) ?w2)"
    by blast
  from T [where f = work_fail and drv = drv_rollback_fails and c = 0 and opts = "(0, False)"]
    b3 g f2 r3
  have a3: "Transact drv_rollback_fails 0 0 (0, False) work_fail root_world =
     (Returns (Some (Wrapped (Err ''connection lost'') (msg_rollback (txLevel root_handle + 1)))),
      log (EvRollback 0 (Some (Err ''connection lost''))) ?w2)"
    by blast
  from h1 h2 h3 a0 a1 a2 a3 show ?thesis
    by (simp add: c1 c2 lv msg_commit_1 msg_rollback_1)
qed

lemma Stmt_body_handles: "handles (snd (Stmt_body drv h q w)) = handles w"
  by (simp add: Stmt_body_def log_def Let_def split: option.splits sum.splits)

lemma with_lock_handles:
  assumes "\<And>h w'. handles (snd (body h w')) = handles w'"
  shows "handles (snd (with_lock d body w)) = handles w"
proof -
  have "handles (snd (body h (w\<lparr>mutexes := ms\<rparr>))) = handles w" for h ms
    using assms [of h "w\<lparr>mutexes := ms\<rparr>"] by simp
  then show ?thesis
    by (simp add: with_lock_def split: option.splits prod.splits) (metis snd_conv)
qed

lemma Stmt_handles: "handles (snd (Stmt drv d q w)) = handles w"
  unfolding Stmt_def by (rule with_lock_handles) (rule Stmt_body_handles)

lemma lookup_stmt_maps:
  "maps w' = maps w \<Longrightarrow> lookup_stmt w' m q = lookup_stmt w m q"
  by (cases m) (simp_all add: lookup_stmt_def)

lemma Stmt_cached:
  assumes "deref (handles w) d = Some h"
    and "stmtsMtx h = Some mu" and "deref (mutexes w) mu = Some False"
    and "lookup_stmt w (stmts h) q = Some s"
  shows "Stmt drv d q w = (Returns (Inr s), w)"
proof -
  have l: "lookup_stmt (w\<lparr>mutexes := (mutexes w)[mu := True]\<rparr>) (stmts h) q = Some s"
    using assms(4) lookup_stmt_maps [of "w\<lparr>mutexes := (mutexes w)[mu := True]\<rparr>" w] by simp
  show ?thesis
    unfolding Stmt_def with_lock_free [OF assms(1-3)]
    by (simp add: Stmt_body_def l unlock_free [OF assms(3)])
qed

subsection \<open>Where Exec, Get and Select run the statement\<close>

text \<open>
  Claim C5. Let \<^verbatim>\<open>Stmt\<close> on the struct at \<^verbatim>\<open>d\<close> return the statement \<^verbatim>\<open>s\<close>. When the struct has
  no transaction, each of \<^verbatim>\<open>Exec\<close>, \<^verbatim>\<open>Get\<close> and \<^verbatim>\<open>Select\<close> makes one more driver call, its
  own \<^verbatim>\<open>ExecContext\<close>, \<^verbatim>\<open>GetContext\<close> or \<^verbatim>\<open>SelectContext\<close> on \<^verbatim>\<open>s\<close> itself, and returns the
  driver's answer. When the struct holds the transaction \<^verbatim>\<open>t\<close>, each first calls
  \<^verbatim>\<open>t.NamedStmt(s)\<close> and then makes its call on the statement \<^verbatim>\<open>s'\<close> that came back.
\<close>

theorem Exec_Get_Select_target:
  assumes "Stmt drv d q w = (Returns (Inr s), w1)" and "deref (handles w) d = Some h"
  shows "(tx h = None \<longrightarrow>
            Exec drv d c q p w =
              (let r = ExecContext drv (trace w1) s c (default_params p)
               in (Returns r, log (EvExecContext s c (default_params p) r) w1)) \<and>
            Get drv d c q dst p w =
              (let r = GetContext drv (trace w1) s c dst (default_params p)
               in (Returns r, log (EvGetContext s c dst (default_params p) r) w1)) \<and>
            Select drv d c q dst p w =
              (let r = SelectContext drv (trace w1) s c dst (default_params p)
               in (Returns r, log (EvSelectContext s c dst (default_params p) r) w1))) \<and>
         (\<forall>t. tx h = Some t \<longrightarrow>
            (let s' = NamedStmt drv (trace w1) t s;
                 w2 = log (EvNamedStmt t s s') w1
             in Exec drv d c q p w =
                  (let r = ExecContext drv (trace w2) s' c (default_params p)
                   in (Returns r, log (EvExecContext s' c (default_params p) r) w2)) \<and>
                Get drv d c q dst p w =
                  (let r = GetContext drv (trace w2) s' c dst (default_params p)
                   in (Returns r, log (EvGetContext s' c dst (default_params p) r) w2)) \<and>
                Select drv d c q dst p w =
                  (let r = SelectContext drv (trace w2) s' c dst (default_params p)
                   in (Returns r, log (EvSelectContext s' c dst (default_params p) r) w2))))"
proof -
  have "handles w1 = handles w"
    using Stmt_handles [of drv d q w] assms(1) by simp
  then have h: "deref (handles w1) d = Some h"
    using assms(2) by simp
  show ?thesis
    by (simp add: Exec_def Get_def Select_def assms(1) target_def h Let_def
             split: option.splits)
qed


lemma cached_tx_world_eq:
  "cached_tx_world =
     \<lparr>handles = [root_handle, child root_handle 1 1], maps = [[(''SELECT 1'', 0)]],
      mutexes = [False],
      trace = [EvPrepareNamed 0 ''SELECT 1'' (Inr 0), EvBeginTxx 0 0 (0, False) (Inr 1)]\<rparr>"
  by (simp add: cached_tx_world_def begun_def alloc_handle_def log_def cached_world_def
        root_handle_def)

lemma Stmt_cached_world:
  "Stmt drv_ok 0 ''SELECT 1'' cached_world = (Returns (Inr 0), cached_world)"
  by (rule Stmt_cached [where h = root_handle and mu = 0])
     (simp_all add: cached_world_def deref_def root_handle_def lookup_stmt_def)

lemma Stmt_cached_tx_world:
  "Stmt drv_ok 1 ''SELECT 1'' cached_tx_world = (Returns (Inr 0), cached_tx_world)"
  by (rule Stmt_cached [where h = "child root_handle 1 1" and mu = 0])
     (simp_all add: cached_tx_world_eq deref_def root_handle_def child_def lookup_stmt_def)

theorem Exec_Get_Select_target_witness:
  "Stmt drv_ok 0 ''SELECT 1'' cached_world = (Returns (Inr 0), cached_world) \<and>
   deref (handles cached_world) 0 = Some root_handle \<and> tx root_handle = None \<and>
   Exec drv_ok 0 0 ''SELECT 1'' Nil cached_world =
     (Returns (Inr 1), log (EvExecContext 0 0 EmptyStruct (Inr 1)) cached_world) \<and>
   Get drv_ok 0 0 ''SELECT 1'' (Val 5) Nil cached_world =
     (Returns None, log (EvGetContext 0 0 (Val 5) EmptyStruct None) cached_world) \<and>
   Select drv_ok 0 0 ''SELECT 1'' (Val 5) (Val 6) cached_world =
     (Returns None, log (EvSelectContext 0 0 (Val 5) (Val 6) None) cached_world) \<and>
   Stmt drv_ok 1 ''SELECT 1'' cached_tx_world = (Returns (Inr 0), cached_tx_world) \<and>
   deref (handles cached_tx_world) 1 = Some (child root_handle 1 1) \<and>
   tx (child root_handle 1 1) = Some 1 \<and>
   Exec drv_ok 1 0 ''SELECT 1'' Nil cached_tx_world =
     (Returns (Inr 1),
      log (EvExecContext 2 0 EmptyStruct (Inr 1)) (log (EvNamedStmt 1 0 2) cached_tx_world)) \<and>
   Get drv_ok 1 0 ''SELECT 1'' (Val 5) Nil cached_tx_world =
     (Returns None,
      log (EvGetContext 2 0 (Val 5) EmptyStruct None) (log (EvNamedStmt 1 0 2) cached_tx_world)) \<and>
   Select drv_ok 1 0 ''SELECT 1'' (Val 5) (Val 6) cached_tx_world =
     (Returns None,
      log (EvSelectContext 2 0 (Val 5) (Val 6) None) (log (EvNamedStmt 1 0 2) cached_tx_world))"
proof -
  have h1: "deref (handles cached_world) 0 = Some root_handle"
    by (simp add: cached_world_def deref_def)
  have t1: "tx root_handle = None"
    by (simp add: root_handle_def)
  have h2: "deref (handles cached_tx_world) 1 = Some (child root_handle 1 1)"
    by (simp add: cached_tx_world_eq deref_def)
  have t2: "tx (child root_handle 1 1) = Some 1"
    by (simp add: child_def)
  have n: "NamedStmt drv_ok (trace cached_tx_world) (Suc 0) 0 = 2"
    by (simp add: drv_ok_def cached_tx_world_eq)
  have d: "default_params Nil = EmptyStruct" "default_params (Val 6) = Val 6"
    by (simp_all add: default_params_def)
  have e: "ExecContext drv_ok tr s c p = Inr 1" "GetContext drv_ok tr s c dst p = None"
    "SelectContext drv_ok tr s c dst p = None" for tr s c dst p
    by (simp_all add: drv_ok_def)
  note A = Exec_Get_Select_target [OF Stmt_cached_world h1, of 0 _ "Val 5"]
  note B = Exec_Get_Select_target [OF Stmt_cached_tx_world h2, of 0 _ "Val 5"]
  from A [of Nil] A [of "Val 6"] t1
  have a: "Exec drv_ok 0 0 ''SELECT 1'' Nil cached_world =
        (Returns (Inr 1), log (EvExecContext 0 0 EmptyStruct (Inr 1)) cached_world)"
    "Get drv_ok 0 0 ''SELECT 1'' (Val 5) Nil cached_world =
        (Returns None, log (EvGetContext 0 0 (Val 5) EmptyStruct None) cached_world)"
    "Select drv_ok 0 0 ''SELECT 1'' (Val 5) (Val 6) cached_world =
        (Returns None, log (EvSelectContext 0 0 (Val 5) (Val 6) None) cached_world)"
    by (simp_all add: d e Let_def)
  from B [of Nil] B [of "Val 6"] t2
  have b: "Exec drv_ok 1 0 ''SELECT 1'' Nil cached_tx_world =
     (Returns (Inr 1),
      log (EvExecContext 2 0 EmptyStruct (Inr 1)) (log (EvNamedStmt 1 0 2) cached_tx_world))"
   "Get drv_ok 1 0 ''SELECT 1'' (Val 5) Nil cached_tx_world =
     (Returns None,
      log (EvGetContext 2 0 (Val 5) EmptyStruct None) (log (EvNamedStmt 1 0 2) cached_tx_world))"
   "Select drv_ok 1 0 ''SELECT 1'' (Val 5) (Val 6) cached_tx_world =
     (Returns None,
      log (EvSelectContext 2 0 (Val 5) (Val 6) None) (log (EvNamedStmt 1 0 2) cached_tx_world))"
    by (simp_all add: d e n Let_def)
  from Stmt_cached_world Stmt_cached_tx_world h1 h2 t1 t2 a b show ?thesis
    by simp
qed

lemma with_lock_Returns:
  assumes "with_lock d body w = (Returns r, w1)"
  obtains h mu w' where "deref (handles w) d = Some h" and "stmtsMtx h = Some mu"
    and "deref (mutexes w) mu = Some False"
    and "body h (w\<lparr>mutexes := (mutexes w)[mu := True]\<rparr>) = (Returns r, w')"
    and "w1 = w'\<lparr>mutexes := (mutexes w')[mu := False]\<rparr>"
  using assms
  by (auto simp: with_lock_def split: option.splits if_splits prod.splits)

lemma Stmt_body_frame:
  "mutexes (snd (Stmt_body drv h q w)) = mutexes w"
  by (simp add: Stmt_body_def log_def Let_def split: option.splits sum.splits)

lemma Stmt_body_Returns:
  assumes "Stmt_body drv h q w = (Returns (Inr s), w')"
  shows "lookup_stmt w' (stmts h) q = Some s \<and>
         (case lookup_stmt w (stmts h) q of
            Some s' \<Rightarrow> s' = s \<and> w' = w
          | None \<Rightarrow> (\<exists>x. X h = Some x \<and> PrepareNamed drv (trace w) x q = Inr s \<and>
                        trace w' = trace w @ [EvPrepareNamed x q (Inr s)]))"
  using assms
  by (auto simp: Stmt_body_def lookup_stmt_def log_def Let_def deref_def update_conv'
           split: option.splits sum.splits if_splits)

lemma Stmt_Returns:
  assumes "Stmt drv d q w = (Returns (Inr s), w1)" and "deref (handles w) d = Some h"
  obtains mu where "stmtsMtx h = Some mu" and "deref (mutexes w) mu = Some False"
    and "deref (mutexes w1) mu = Some False" and "handles w1 = handles w"
    and "lookup_stmt w1 (stmts h) q = Some s"
    and "case lookup_stmt w (stmts h) q of
            Some s' \<Rightarrow> s' = s \<and> w1 = w
          | None \<Rightarrow> (\<exists>x. X h = Some x \<and> PrepareNamed drv (trace w) x q = Inr s \<and>
                        trace w1 = trace w @ [EvPrepareNamed x q (Inr s)])"
proof -
  from assms(1) obtain h' mu w' where a: "deref (handles w) d = Some h'"
    and b: "stmtsMtx h' = Some mu" and c: "deref (mutexes w) mu = Some False"
    and e: "Stmt_body drv h' q (w\<lparr>mutexes := (mutexes w)[mu := True]\<rparr>) = (Returns (Inr s), w')"
    and f: "w1 = w'\<lparr>mutexes := (mutexes w')[mu := False]\<rparr>"
    unfolding Stmt_def by (rule with_lock_Returns)
  from a assms(2) have hh: "h' = h" by simp
  let ?wl = "w\<lparr>mutexes := (mutexes w)[mu := True]\<rparr>"
  have m: "mutexes w' = (mutexes w)[mu := True]"
    using Stmt_body_frame [of drv h q ?wl] e hh by simp
  have m1: "mutexes w1 = mutexes w"
    using f m unlock_free [OF c] by simp
  have hs: "handles w1 = handles w"
    using Stmt_handles [of drv d q w] assms(1) by simp
  note R = Stmt_body_Returns [OF e [unfolded hh]]
  have l1: "lookup_stmt w1 (stmts h) q = Some s"
    using R lookup_stmt_maps [of w1 w'] f by simp
  have l0: "lookup_stmt ?wl (stmts h) q = lookup_stmt w (stmts h) q"
    by (rule lookup_stmt_maps) simp
  have k: "case lookup_stmt w (stmts h) q of
            Some s' \<Rightarrow> s' = s \<and> w1 = w
          | None \<Rightarrow> (\<exists>x. X h = Some x \<and> PrepareNamed drv (trace w) x q = Inr s \<and>
                        trace w1 = trace w @ [EvPrepareNamed x q (Inr s)])"
  proof (cases "lookup_stmt w (stmts h) q")
    case None
    with R l0 f show ?thesis by simp
  next
    case (Some s')
    with R l0 have "s' = s" and "w' = ?wl" by simp_all
    with f unlock_free [OF c] Some show ?thesis by simp
  qed
  from b [unfolded hh] c m1 hs l1 k show thesis
    using that by simp
qed

lemma Stmt_repeat_cached:
  assumes "deref (handles w) d = Some h"
    and "stmtsMtx h = Some mu" and "deref (mutexes w) mu = Some False"
    and "lookup_stmt w (stmts h) q = Some s"
  shows "Stmt_repeat drv d q n w = (replicate n (Returns (Inr s)), w)"
  by (induction n) (simp_all add: Stmt_cached [OF assms])

subsection \<open>Resolving the same query again\<close>

text \<open>
  Claim C3 says that two calls of \<^verbatim>\<open>Stmt\<close> on the same query return the same statement and
  that the driver prepares the query exactly once, however often it is resolved. On a
  driver whose first \<^verbatim>\<open>PrepareNamed\<close> fails, the first call returns the error and caches
  nothing, the second call returns a statement, and the driver has prepared the query
  twice.
\<close>

theorem Stmt_flaky_counterexample:
  "Stmt_repeat drv_flaky 0 ''SELECT 1'' (Suc (Suc 0)) root_world =
     ([Returns (Inl (Err ''connection reset'')), Returns (Inr 1)],
      \<lparr>handles = [root_handle], maps = [[(''SELECT 1'', 1)]], mutexes = [False],
       trace = [EvPrepareNamed 0 ''SELECT 1'' (Inl (Err ''connection reset'')),
                EvPrepareNamed 0 ''SELECT 1'' (Inr 1)]\<rparr>) \<and>
   prepare_calls ''SELECT 1''
     [EvPrepareNamed 0 ''SELECT 1'' (Inl (Err ''connection reset'')),
      EvPrepareNamed 0 ''SELECT 1'' (Inr 1)] = 2"
  by (simp add: Stmt_def with_lock_def Stmt_body_def lookup_stmt_def deref_def log_def
        root_world_eq root_handle_def drv_flaky_def drv_ok_def prepare_calls_def Let_def)

text \<open>
  Claim C3, amended. Let a first \<^verbatim>\<open>Stmt\<close> on the query \<^verbatim>\<open>q\<close> return the statement \<^verbatim>\<open>s\<close>. Then
  each of any number of further calls returns the same \<^verbatim>\<open>s\<close> and leaves the state, trace
  included, as the first call left it. When \<^verbatim>\<open>q\<close> had an entry before the first call, that
  call returned the entry and changed nothing; over the whole run the driver has prepared
  \<^verbatim>\<open>q\<close> not at all in that case, and exactly once otherwise.
\<close>

theorem Stmt_resolved_once:
  assumes "Stmt drv d q w = (Returns (Inr s), w1)" and "deref (handles w) d = Some h"
  shows "Stmt_repeat drv d q (Suc n) w = (replicate (Suc n) (Returns (Inr s)), w1) \<and>
         (\<forall>s'. lookup_stmt w (stmts h) q = Some s' \<longrightarrow> s' = s \<and> w1 = w) \<and>
         prepare_calls q (trace w1) =
           prepare_calls q (trace w) + (case lookup_stmt w (stmts h) q of None \<Rightarrow> 1 | Some s' \<Rightarrow> 0)"
proof -
  from assms obtain mu where b: "stmtsMtx h = Some mu"
    and c1: "deref (mutexes w1) mu = Some False" and hs: "handles w1 = handles w"
    and l1: "lookup_stmt w1 (stmts h) q = Some s"
    and k: "case lookup_stmt w (stmts h) q of
            Some s' \<Rightarrow> s' = s \<and> w1 = w
          | None \<Rightarrow> (\<exists>x. X h = Some x \<and> PrepareNamed drv (trace w) x q = Inr s \<and>
                        trace w1 = trace w @ [EvPrepareNamed x q (Inr s)])"
    by (rule Stmt_Returns)
  have h1: "deref (handles w1) d = Some h"
    using hs assms(2) by simp
  have r: "Stmt_repeat drv d q n w1 = (replicate n (Returns (Inr s)), w1)"
    using h1 b c1 l1 by (rule Stmt_repeat_cached)
  have "Stmt_repeat drv d q (Suc n) w = (replicate (Suc n) (Returns (Inr s)), w1)"
    by (simp add: assms(1) r)
  moreover have "\<forall>s'. lookup_stmt w (stmts h) q = Some s' \<longrightarrow> s' = s \<and> w1 = w"
    using k by (auto split: option.splits)
  moreover have "prepare_calls q (trace w1) =
      prepare_calls q (trace w) + (case lookup_stmt w (stmts h) q of None \<Rightarrow> 1 | Some s' \<Rightarrow> 0)"
    using k by (auto simp: prepare_calls_def split: option.splits)
  ultimately show ?thesis by blast
qed


lemma Stmt_root_world:
  "Stmt drv_ok 0 ''SELECT 1'' root_world = (Returns (Inr 0), cached_world)"
  by (simp add: Stmt_def with_lock_def Stmt_body_def lookup_stmt_def deref_def log_def
        root_world_eq root_handle_def cached_world_def drv_ok_def Let_def)

theorem Stmt_resolved_once_witness:
  "Stmt drv_ok 0 ''SELECT 1'' root_world = (Returns (Inr 0), cached_world) \<and>
   deref (handles root_world) 0 = Some root_handle \<and>
   Stmt_repeat drv_ok 0 ''SELECT 1'' (Suc 2) root_world =
     ([Returns (Inr 0), Returns (Inr 0), Returns (Inr 0)], cached_world) \<and>
   prepare_calls ''SELECT 1'' (trace root_world) = 0 \<and>
   prepare_calls ''SELECT 1'' (trace cached_world) = 1"
proof -
  have h: "deref (handles root_world) 0 = Some root_handle"
    by (simp add: root_world_eq deref_def)
  have l: "lookup_stmt root_world (stmts root_handle) ''SELECT 1'' = None"
    by (simp add: lookup_stmt_def root_handle_def root_world_eq deref_def)
  have p: "prepare_calls ''SELECT 1'' (trace root_world) = 0"
    by (simp add: prepare_calls_def root_world_eq)
  have r: "replicate (Suc 2) (Returns (Inr 0) :: (error + stmt) outcome) =
      [Returns (Inr 0), Returns (Inr 0), Returns (Inr 0)]"
    by (simp add: numeral_2_eq_2)
  from Stmt_resolved_once [OF Stmt_root_world h, of 2] l p r
  have "Stmt_repeat drv_ok 0 ''SELECT 1'' (Suc 2) root_world =
     ([Returns (Inr 0), Returns (Inr 0), Returns (Inr 0)], cached_world)"
    and "prepare_calls ''SELECT 1'' (trace cached_world) = 1"
    by simp_all
  with Stmt_root_world h p show ?thesis by simp
qed

subsection \<open>The handle given to the unit of work\<close>

text \<open>
  Claim C4. Let \<^verbatim>\<open>Transact\<close> on the struct at \<^verbatim>\<open>d\<close> pass its check and begin the transaction
  \<^verbatim>\<open>t\<close>. Then the unit of work is called once, on the address \<^verbatim>\<open>a\<close> of a struct that was
  not on the heap before; that struct has the connection of the parent, the transaction
  \<^verbatim>\<open>t\<close>, the parent's depth plus one, and the parent's mutex and map addresses; the maps
  and mutexes themselves are as before the call. So when \<^verbatim>\<open>Stmt\<close> on the parent returned
  the statement \<^verbatim>\<open>s\<close> for a query just before \<^verbatim>\<open>Transact\<close>, \<^verbatim>\<open>Stmt\<close> on the new handle returns
  the same \<^verbatim>\<open>s\<close> and leaves the state, trace included, unchanged: the driver prepares
  nothing.
\<close>

theorem Transact_child_handle:
  assumes "deref (handles w) d = Some h" and "tx h = None" and "X h = Some x"
    and "BeginTxx drv (trace w) x c opts = Inr t"
    and "begun h x c opts t w = (a, w2)"
  shows "Transact drv d c opts f w = Transact_end drv t (txLevel h + 1) (f a w2) \<and>
         deref (handles w) a = None \<and>
         deref (handles w2) a =
           Some \<lparr>X = X h, tx = Some t, txLevel = txLevel h + 1,
                 stmtsMtx = stmtsMtx h, stmts = stmts h\<rparr> \<and>
         maps w2 = maps w \<and> mutexes w2 = mutexes w \<and>
         (\<forall>q s w0. Stmt drv d q w0 = (Returns (Inr s), w) \<longrightarrow>
                   Stmt drv a q w2 = (Returns (Inr s), w2))"
proof -
  let ?k = "\<lparr>X = X h, tx = Some t, txLevel = txLevel h + 1,
             stmtsMtx = stmtsMtx h, stmts = stmts h\<rparr>"
  have a: "a = length (handles w)"
    and w2: "w2 = (log (EvBeginTxx x c opts (Inr t)) w)\<lparr>handles := handles w @ [?k]\<rparr>"
    using assms(5) by (simp_all add: begun_def alloc_handle_def child_def log_def)
  have 1: "Transact drv d c opts f w = Transact_end drv t (txLevel h + 1) (f a w2)"
    unfolding Transact_begun [OF assms(1-4)] assms(5) by simp
  have 2: "deref (handles w) a = None"
    by (simp add: a deref_def)
  have 3: "deref (handles w2) a = Some ?k"
    by (simp add: a w2 deref_def log_def)
  have 4: "maps w2 = maps w" and 5: "mutexes w2 = mutexes w"
    by (simp_all add: w2 log_def)
  have 6: "Stmt drv a q w2 = (Returns (Inr s), w2)"
    if p: "Stmt drv d q w0 = (Returns (Inr s), w)" for q s w0
  proof -
    have "handles w = handles w0"
      using Stmt_handles [of drv d q w0] p by simp
    with assms(1) have "deref (handles w0) d = Some h" by simp
    with p obtain mu where "stmtsMtx h = Some mu" and "deref (mutexes w) mu = Some False"
      and "lookup_stmt w (stmts h) q = Some s"
      by (rule Stmt_Returns)
    then have "stmtsMtx ?k = Some mu" and "deref (mutexes w2) mu = Some False"
      and "lookup_stmt w2 (stmts ?k) q = Some s"
      using 5 lookup_stmt_maps [OF 4] by simp_all
    with 3 show ?thesis by (rule Stmt_cached)
  qed
  from 1 2 3 4 5 6 show ?thesis by blast
qed

lemma BeginTxx_cached_world:
  "BeginTxx drv_ok (trace cached_world) 0 0 (0, False) = Inr 1"
  by (simp add: drv_ok_def cached_world_def)

lemma begun_cached_world:
  "begun root_handle 0 0 (0, False) 1 cached_world = (1, cached_tx_world)"
  by (simp add: cached_tx_world_def begun_def alloc_handle_def cached_world_def log_def)

lemma drv_ok_sel:
  "PrepareNamed drv_ok tr x q = Inr (length tr)"
  "BeginTxx drv_ok tr x c opts = Inr (length tr)"
  "Rollback drv_ok tr t = None"
  "Commit drv_ok tr t = None"
  "NamedStmt drv_ok tr t s = length tr"
  "ExecContext drv_ok tr s c p = Inr 1"
  "GetContext drv_ok tr s c dst p = None"
  "SelectContext drv_ok tr s c dst p = None"
  "StmtClose drv_ok tr s = None"
  by (simp_all add: drv_ok_def)

lemma cached_tx_world_sel:
  "handles cached_tx_world = [root_handle, child root_handle 1 1]"
  "trace cached_tx_world =
     [EvPrepareNamed 0 ''SELECT 1'' (Inr 0), EvBeginTxx 0 0 (0, False) (Inr 1)]"
  by (simp_all add: cached_tx_world_eq)

lemma work_exec_cached_tx_world:
  "work_exec drv_ok 1 cached_tx_world =
     (Returns None,
      log (EvExecContext 2 0 EmptyStruct (Inr 1)) (log (EvNamedStmt 1 0 2) cached_tx_world))"
  by (simp add: work_exec_def Exec_def Stmt_cached_tx_world [unfolded One_nat_def] target_def
        cached_tx_world_sel
        deref_def child_def drv_ok_sel default_params_def log_def Let_def)

theorem Transact_child_handle_witness:
  "deref (handles cached_world) 0 = Some root_handle \<and> tx root_handle = None \<and>
   X root_handle = Some 0 \<and>
   BeginTxx drv_ok (trace cached_world) 0 0 (0, False) = Inr 1 \<and>
   begun root_handle 0 0 (0, False) 1 cached_world = (1, cached_tx_world) \<and>
   Stmt drv_ok 0 ''SELECT 1'' root_world = (Returns (Inr 0), cached_world) \<and>
   deref (handles cached_tx_world) 1 =
     Some \<lparr>X = Some 0, tx = Some 1, txLevel = 1, stmtsMtx = Some 0, stmts = Some 0\<rparr> \<and>
   Stmt drv_ok 1 ''SELECT 1'' cached_tx_world = (Returns (Inr 0), cached_tx_world) \<and>
   Transact drv_ok 0 0 (0, False) (work_exec drv_ok) cached_world =
     (Returns None,
      cached_tx_world\<lparr>trace :=
        [EvPrepareNamed 0 ''SELECT 1'' (Inr 0), EvBeginTxx 0 0 (0, False) (Inr 1),
         EvNamedStmt 1 0 2, EvExecContext 2 0 EmptyStruct (Inr 1), EvCommit 1 None]\<rparr>)"
proof -
  have h1: "deref (handles cached_world) 0 = Some root_handle"
    by (simp add: cached_world_def deref_def)
  have h2: "tx root_handle = None" and h3: "X root_handle = Some 0"
    by (simp_all add: root_handle_def)
  note T = Transact_child_handle [where f = "work_exec drv_ok",
      OF h1 h2 h3 BeginTxx_cached_world begun_cached_world]
  from T have k: "deref (handles cached_tx_world) 1 =
     Some \<lparr>X = Some 0, tx = Some 1, txLevel = 1, stmtsMtx = Some 0, stmts = Some 0\<rparr>"
    by (simp add: root_handle_def)
  from T Stmt_root_world
  have s: "Stmt drv_ok 1 ''SELECT 1'' cached_tx_world = (Returns (Inr 0), cached_tx_world)"
    by blast
  from T have "Transact drv_ok 0 0 (0, False) (work_exec drv_ok) cached_world =
      Transact_end drv_ok 1 (txLevel root_handle + 1) (work_exec drv_ok 1 cached_tx_world)"
    by blast
  then have r: "Transact drv_ok 0 0 (0, False) (work_exec drv_ok) cached_world =
     (Returns None,
      cached_tx_world\<lparr>trace :=
        [EvPrepareNamed 0 ''SELECT 1'' (Inr 0), EvBeginTxx 0 0 (0, False) (Inr 1),
         EvNamedStmt 1 0 2, EvExecContext 2 0 EmptyStruct (Inr 1), EvCommit 1 None]\<rparr>)"
    by (simp add: work_exec_cached_tx_world [unfolded One_nat_def] Transact_end_def Wrapf_def log_def drv_ok_sel
          cached_tx_world_sel root_handle_def Let_def)
  from h1 h2 h3 BeginTxx_cached_world begun_cached_world Stmt_root_world k s r
  show ?thesis by simp
qed

subsection \<open>What Close releases\<close>

text \<open>
  Claim C8 says that \<^verbatim>\<open>Close\<close> attempts to release every cached statement even when a
  release fails. With two cached statements and a driver on which every release fails,
  \<^verbatim>\<open>Close\<close> returns the first failure after a single \<^verbatim>\<open>Close\<close> call on a statement, in
  either order of the two entries: the other statement is not released.
\<close>

theorem Close_stops_counterexample:
  "Close drv_close_fails 0 two_world =
     (Returns (Some (Err ''bad connection'')),
      two_world\<lparr>trace := [EvStmtClose 0 (Some (Err ''bad connection''))]\<rparr>) \<and>
   Close drv_close_fails 0 two_world_rev =
     (Returns (Some (Err ''bad connection'')),
      two_world_rev\<lparr>trace := [EvStmtClose 1 (Some (Err ''bad connection''))]\<rparr>)"
  by (simp add: Close_def with_lock_def Close_body_def deref_def log_def Let_def
        two_world_def two_world_rev_def root_handle_def drv_close_fails_def)

lemma Close_loop_trace:
  assumes "Close_loop drv al w = (r, w')"
  shows "w' = w\<lparr>trace := trace w'\<rparr> \<and>
         (r = None \<longrightarrow> trace w' = trace w @ closed_ok al) \<and>
         (\<forall>e. r = Some e \<longrightarrow>
            (\<exists>k < length al.
               trace w' = trace w @ closed_ok (take k al) @ [EvStmtClose (snd (al ! k)) (Some e)]))"
  using assms
proof (induction al arbitrary: w)
  case Nil
  then show ?case by (auto simp: closed_ok_def)
next
  case (Cons p al)
  obtain q s where p: "p = (q, s)" by (cases p)
  show ?case
  proof (cases "StmtClose drv (trace w) s")
    case (Some e)
    with Cons.prems p have "r = Some e" and "w' = log (EvStmtClose s (Some e)) w"
      by (auto simp: Let_def)
    then show ?thesis
      using p by (auto simp: log_def closed_ok_def intro!: exI [of _ 0])
  next
    case None
    let ?w1 = "log (EvStmtClose s None) w"
    from Cons.prems p None have "Close_loop drv al ?w1 = (r, w')"
      by (simp add: Let_def)
    from Cons.IH [OF this]
    have a: "w' = ?w1\<lparr>trace := trace w'\<rparr>"
      and b: "r = None \<longrightarrow> trace w' = trace ?w1 @ closed_ok al"
      and c: "\<forall>e. r = Some e \<longrightarrow>
            (\<exists>k < length al.
               trace w' = trace ?w1 @ closed_ok (take k al) @ [EvStmtClose (snd (al ! k)) (Some e)])"
      by blast+
    have 1: "w' = w\<lparr>trace := trace w'\<rparr>"
      using a by (simp add: log_def)
    have 2: "r = None \<longrightarrow> trace w' = trace w @ closed_ok (p # al)"
      using b p by (simp add: log_def closed_ok_def)
    have 3: "\<exists>k < length (p # al).
               trace w' = trace w @ closed_ok (take k (p # al)) @
                 [EvStmtClose (snd ((p # al) ! k)) (Some e)]" if "r = Some e" for e
    proof -
      from c that obtain k where "k < length al"
        and "trace w' = trace ?w1 @ closed_ok (take k al) @ [EvStmtClose (snd (al ! k)) (Some e)]"
        by blast
      then have "Suc k < length (p # al)"
        and "trace w' = trace w @ closed_ok (take (Suc k) (p # al)) @
                 [EvStmtClose (snd ((p # al) ! Suc k)) (Some e)]"
        using p by (simp_all add: log_def closed_ok_def)
      then show ?thesis by blast
    qed
    from 1 2 3 show ?thesis by blast
  qed
qed


text \<open>
  Claim C8, amended. Let the struct at \<^verbatim>\<open>d\<close> have a free mutex and a map with the entries
  \<^verbatim>\<open>al\<close>, in the order \<^verbatim>\<open>range\<close> visits them. Then \<^verbatim>\<open>Close\<close> returns, and it changes nothing
  but the trace: the map keeps its entries, and no call is made on the connection. When
  it returns nil, it has called \<^verbatim>\<open>Close\<close> on the statement of every entry, once each, and
  every call succeeded. When it returns an error, that error is the first failure: the
  entries before it were released, and the entries after it were not attempted.
\<close>

theorem Close_releases:
  assumes "deref (handles w) d = Some h"
    and "stmtsMtx h = Some mu" and "deref (mutexes w) mu = Some False"
    and "stmts h = Some a" and "deref (maps w) a = Some al"
  shows "\<exists>r w'. Close drv d w = (Returns r, w') \<and> w' = w\<lparr>trace := trace w'\<rparr> \<and>
           (r = None \<longrightarrow> trace w' = trace w @ closed_ok al) \<and>
           (\<forall>e. r = Some e \<longrightarrow>
              (\<exists>k < length al.
                 trace w' = trace w @ closed_ok (take k al) @
                   [EvStmtClose (snd (al ! k)) (Some e)]))"
proof -
  let ?wl = "w\<lparr>mutexes := (mutexes w)[mu := True]\<rparr>"
  obtain r w1 where l: "Close_loop drv al ?wl = (r, w1)"
    by (cases "Close_loop drv al ?wl")
  note L = Close_loop_trace [OF l]
  from L have w1: "w1 = ?wl\<lparr>trace := trace w1\<rparr>" by blast
  have "mutexes w1 = (mutexes w)[mu := True]"
    using w1 by (metis world.select_convs(3) world.surjective world.update_convs(3,4))
  then have u: "(mutexes w1)[mu := False] = mutexes w"
    using unlock_free [OF assms(3)] by simp
  have c: "Close drv d w = (Returns r, w1\<lparr>mutexes := (mutexes w1)[mu := False]\<rparr>)"
    unfolding Close_def with_lock_free [OF assms(1-3)]
    by (simp add: Close_body_def assms(4,5) l)
  have e: "w1\<lparr>mutexes := (mutexes w1)[mu := False]\<rparr> = w\<lparr>trace := trace w1\<rparr>"
    unfolding u by (subst w1) simp
  from c e L show ?thesis by simp
qed

lemma Close_two_world:
  "fst (Close drv_ok 0 two_world) = Returns None"
  by (simp add: Close_def with_lock_def Close_body_def deref_def log_def Let_def
        two_world_def root_handle_def drv_ok_def)

theorem Close_releases_witness:
  "deref (handles two_world) 0 = Some root_handle \<and> stmtsMtx root_handle = Some 0 \<and>
   deref (mutexes two_world) 0 = Some False \<and> stmts root_handle = Some 0 \<and>
   deref (maps two_world) 0 = Some [(''SELECT 1'', 0), (''SELECT 2'', 1)] \<and>
   Close drv_ok 0 two_world =
     (Returns None, two_world\<lparr>trace := [EvStmtClose 0 None, EvStmtClose 1 None]\<rparr>)"
proof -
  have h1: "deref (handles two_world) 0 = Some root_handle"
    and h3: "deref (mutexes two_world) 0 = Some False"
    and h5: "deref (maps two_world) 0 = Some [(''SELECT 1'', 0), (''SELECT 2'', 1)]"
    by (simp_all add: two_world_def deref_def)
  have h2: "stmtsMtx root_handle = Some 0" and h4: "stmts root_handle = Some 0"
    by (simp_all add: root_handle_def)
  have t: "trace two_world = []"
    by (simp add: two_world_def)
  from Close_releases [OF h1 h2 h3 h4 h5, of drv_ok]
  obtain r w' where c: "Close drv_ok 0 two_world = (Returns r, w')"
    and f: "w' = two_world\<lparr>trace := trace w'\<rparr>"
    and n: "r = None \<longrightarrow>
              trace w' = trace two_world @ closed_ok [(''SELECT 1'', 0), (''SELECT 2'', 1)]"
    by blast
  from c Close_two_world have r: "r = None" by simp
  with n t have "trace w' = [EvStmtClose 0 None, EvStmtClose 1 None]"
    by (simp add: closed_ok_def)
  with f have "w' = two_world\<lparr>trace := [EvStmtClose 0 None, EvStmtClose 1 None]\<rparr>"
    by simp
  with c r h1 h2 h3 h4 h5 show ?thesis by simp
qed

subsection \<open>Operations that leave the structs alone\<close>

lemma target_handles: "handles (snd (target drv d s w)) = handles w"
  by (simp add: target_def log_def Let_def split: option.splits)

lemma Exec_handles: "handles (snd (Exec drv d c q p w)) = handles w"
proof -
  obtain r w1 where s: "Stmt drv d q w = (r, w1)" by (cases "Stmt drv d q w")
  then have 1: "handles w1 = handles w"
    using Stmt_handles [of drv d q w] by simp
  have 2: "handles (snd (target drv d s' w1)) = handles w" for s'
    using target_handles [of drv d s' w1] 1 by simp
  show ?thesis
    using 1 2
    by (auto simp: Exec_def s log_def Let_def split: outcome.splits sum.splits prod.splits)
       (metis snd_conv)+
qed


lemma Get_handles: "handles (snd (Get drv d c q dst p w)) = handles w"
proof -
  obtain r w1 where s: "Stmt drv d q w = (r, w1)" by (cases "Stmt drv d q w")
  then have 1: "handles w1 = handles w"
    using Stmt_handles [of drv d q w] by simp
  have 2: "handles (snd (target drv d s' w1)) = handles w" for s'
    using target_handles [of drv d s' w1] 1 by simp
  show ?thesis
    using 1 2
    by (auto simp: Get_def s log_def Let_def
             split: outcome.splits sum.splits prod.splits option.splits)
       (metis snd_conv)+
qed

lemma Select_handles: "handles (snd (Select drv d c q dst p w)) = handles w"
proof -
  obtain r w1 where s: "Stmt drv d q w = (r, w1)" by (cases "Stmt drv d q w")
  then have 1: "handles w1 = handles w"
    using Stmt_handles [of drv d q w] by simp
  have 2: "handles (snd (target drv d s' w1)) = handles w" for s'
    using target_handles [of drv d s' w1] 1 by simp
  show ?thesis
    using 1 2
    by (auto simp: Select_def s log_def Let_def
             split: outcome.splits sum.splits prod.splits option.splits)
       (metis snd_conv)+
qed

lemma Close_loop_handles: "handles (snd (Close_loop drv al w)) = handles w"
proof -
  obtain r w' where l: "Close_loop drv al w = (r, w')" by (cases "Close_loop drv al w")
  from Close_loop_trace [OF l] have "w' = w\<lparr>trace := trace w'\<rparr>" by blast
  then have "handles w' = handles w"
    by (metis world.select_convs(1) world.surjective world.update_convs(4))
  with l show ?thesis by simp
qed

lemma Close_handles: "handles (snd (Close drv d w)) = handles w"
  unfolding Close_def
proof (rule with_lock_handles)
  fix h w'
  show "handles (snd (Close_body drv h w')) = handles w'"
    using Close_loop_handles [of drv _ w']
    by (auto simp: Close_body_def Let_def split: option.splits prod.splits) (metis snd_conv)
qed

lemma Transact_end_handles: "handles (snd (Transact_end drv t lvl fr)) = handles (snd fr)"
  by (cases fr)
     (auto simp: Transact_end_def log_def Let_def Wrapf_def
           split: outcome.splits option.splits)

lemma deref_append:
  "deref xs a = Some v \<Longrightarrow> deref (xs @ ys) a = Some v"
  by (auto simp: deref_def nth_append split: if_splits)

subsection \<open>Transact leaves the struct it is called on alone\<close>

text \<open>
  Claim C9. Let the unit of work \<^verbatim>\<open>f\<close> never write the struct at \<^verbatim>\<open>d\<close>. Then after
  \<^verbatim>\<open>Transact\<close> on \<^verbatim>\<open>d\<close>, however the call ends, the struct at \<^verbatim>\<open>d\<close> is the one that was
  there before: the same \<^verbatim>\<open>tx\<close>, \<^verbatim>\<open>txLevel\<close>, mutex and map. When a transaction \<^verbatim>\<open>t\<close> was
  begun, it is the struct at the new address \<^verbatim>\<open>a\<close>, which is not \<^verbatim>\<open>d\<close>, that holds \<^verbatim>\<open>t\<close>.
\<close>

theorem Transact_keeps_handle:
  assumes "\<And>a w'. deref (handles (snd (f a w'))) d = deref (handles w') d"
  shows "deref (handles (snd (Transact drv d c opts f w))) d = deref (handles w) d \<and>
         (\<forall>h x t a w2. deref (handles w) d = Some h \<and> begun h x c opts t w = (a, w2) \<longrightarrow>
            a \<noteq> d \<and> deref (handles w2) d = Some h \<and>
            map_option tx (deref (handles w2) a) = Some (Some t))"
proof -
  have 2: "a \<noteq> d \<and> deref (handles w2) d = Some h \<and>
           map_option tx (deref (handles w2) a) = Some (Some t)"
    if "deref (handles w) d = Some h" and "begun h x c opts t w = (a, w2)" for h x t a w2
    using that
    by (auto simp: begun_def alloc_handle_def log_def deref_def child_def nth_append
             split: if_splits)
  have 1: "deref (handles (snd (Transact drv d c opts f w))) d = deref (handles w) d"
  proof (cases "deref (handles w) d")
    case None
    then show ?thesis by (simp add: Transact_def)
  next
    case (Some h)
    show ?thesis
    proof (cases "tx h = None \<and> (\<exists>x t. X h = Some x \<and> BeginTxx drv (trace w) x c opts = Inr t)")
      case False
      with Some show ?thesis
        by (auto simp: Transact_def log_def Let_def split: option.splits sum.splits)
    next
      case True
      then obtain x t where a: "tx h = None" "X h = Some x"
        "BeginTxx drv (trace w) x c opts = Inr t"
        by blast
      obtain a w2 where b: "begun h x c opts t w = (a, w2)"
        by (cases "begun h x c opts t w")
      have "deref (handles (snd (f a w2))) d = deref (handles w2) d"
        by (rule assms)
      also have "\<dots> = Some h"
        using 2 [OF Some b] by simp
      finally show ?thesis
        unfolding Transact_begun [OF Some a] b
        by (simp add: Transact_end_handles Some)
    qed
  qed
  from 1 2 show ?thesis by blast
qed

lemma work_exec_handles: "handles (snd (work_exec drv a w)) = handles w"
  using Exec_handles [of drv a 0 "''SELECT 1''" Nil w]
  by (auto simp: work_exec_def split: prod.splits outcome.splits sum.splits)

theorem Transact_keeps_handle_witness:
  "deref (handles (snd (Transact drv_ok 0 0 (0, False) (work_exec drv_ok) cached_world))) 0 =
     Some root_handle \<and>
   deref (handles cached_world) 0 = Some root_handle \<and>
   begun root_handle 0 0 (0, False) 1 cached_world = (1, cached_tx_world) \<and>
   (1::nat) \<noteq> 0 \<and> deref (handles cached_tx_world) 0 = Some root_handle \<and>
   map_option tx (deref (handles cached_tx_world) 1) = Some (Some 1) \<and>
   tx root_handle = None"
proof -
  have h: "deref (handles cached_world) 0 = Some root_handle"
    by (simp add: cached_world_def deref_def)
  have k: "deref (handles (snd (work_exec drv_ok a w'))) 0 = deref (handles w') 0" for a w'
    by (simp add: work_exec_handles)
  note T = Transact_keeps_handle [of "work_exec drv_ok" 0 drv_ok 0 "(0, False)" cached_world, OF k]
  from T h have 1:
    "deref (handles (snd (Transact drv_ok 0 0 (0, False) (work_exec drv_ok) cached_world))) 0 =
       Some root_handle"
    by simp
  from T h begun_cached_world
  have 2: "(1::nat) \<noteq> 0 \<and> deref (handles cached_tx_world) 0 = Some root_handle \<and>
      map_option tx (deref (handles cached_tx_world) 1) = Some (Some 1)"
    by blast
  from 1 2 h begun_cached_world show ?thesis
    by (simp add: root_handle_def)
qed

subsection \<open>The invariant of reachable handles\<close>

lemma world_ok_handles: "handles w' = handles w \<Longrightarrow> world_ok w' = world_ok w"
  by (simp add: world_ok_def)

lemma New_world_ok: "world_ok w \<Longrightarrow> world_ok (snd (New dbx w))"
  by (simp add: world_ok_def New_def alloc_handle_def handle_ok_def)

lemma world_ok_deref: "world_ok w \<Longrightarrow> deref (handles w) a = Some h \<Longrightarrow> handle_ok h"
  by (auto simp: world_ok_def deref_def list_all_length split: if_splits)

lemma Transact_world_ok:
  assumes g: "\<And>a w'. world_ok w' \<Longrightarrow> world_ok (snd (g a w'))" and w: "world_ok w"
  shows "world_ok (snd (Transact drv d c opts g w))"
proof (cases "deref (handles w) d")
  case None
  with w show ?thesis by (simp add: Transact_def)
next
  case (Some h)
  show ?thesis
  proof (cases "tx h = None \<and> (\<exists>x t. X h = Some x \<and> BeginTxx drv (trace w) x c opts = Inr t)")
    case False
    have "handles (snd (Transact drv d c opts g w)) = handles w"
      using Some False
      by (auto simp: Transact_def log_def Let_def split: option.splits sum.splits)
    from world_ok_handles [OF this] w show ?thesis by simp
  next
    case True
    then obtain x t where a: "tx h = None" "X h = Some x"
      "BeginTxx drv (trace w) x c opts = Inr t"
      by blast
    obtain a w2 where b: "begun h x c opts t w = (a, w2)"
      by (cases "begun h x c opts t w")
    have "handle_ok h"
      using w Some by (rule world_ok_deref)
    with a(1) have "txLevel h = 0" by (simp add: handle_ok_def)
    then have "handle_ok (child h t (txLevel h + 1))"
      by (simp add: handle_ok_def child_def)
    with w b have "world_ok w2"
      by (auto simp: begun_def alloc_handle_def log_def world_ok_def)
    then have "world_ok (snd (g a w2))" by (rule g)
    then show ?thesis
      unfolding Transact_begun [OF Some a] b
      by (simp add: world_ok_def Transact_end_handles)
  qed
qed

lemma bind_op_ok:
  assumes "world_ok (snd (op w))" and "\<And>r w'. world_ok w' \<Longrightarrow> world_ok (snd (k r w'))"
  shows "world_ok (snd (bind_op op k w))"
proof (cases "op w")
  case (Pair r w')
  with assms(1) have "world_ok w'" by simp
  then have "world_ok (snd (k r w'))" by (rule assms(2))
  with Pair show ?thesis by (simp add: bind_op_def)
qed

lemma client_world_ok:
  "client drv p \<Longrightarrow> world_ok w \<Longrightarrow> world_ok (snd (p w))"
proof (induction arbitrary: w rule: client.induct)
  case (ret r)
  then show ?case by simp
next
  case (new k dbx)
  from new.prems have "world_ok (snd (New dbx w))" by (rule New_world_ok)
  then show ?case using new.IH by (rule bind_op_ok)
next
  case (stmt k d q)
  have "world_ok (snd (Stmt drv d q w))"
    using stmt.prems world_ok_handles [OF Stmt_handles] by simp
  then show ?case using stmt.IH by (rule bind_op_ok)
next
  case (exec k d c q p)
  have "world_ok (snd (Exec drv d c q p w))"
    using exec.prems world_ok_handles [OF Exec_handles] by simp
  then show ?case using exec.IH by (rule bind_op_ok)
next
  case (get k d c q dst p)
  have "world_ok (snd (Get drv d c q dst p w))"
    using get.prems world_ok_handles [OF Get_handles] by simp
  then show ?case using get.IH by (rule bind_op_ok)
next
  case (select k d c q dst p)
  have "world_ok (snd (Select drv d c q dst p w))"
    using select.prems world_ok_handles [OF Select_handles] by simp
  then show ?case using select.IH by (rule bind_op_ok)
next
  case (close k d)
  have "world_ok (snd (Close drv d w))"
    using close.prems world_ok_handles [OF Close_handles] by simp
  then show ?case using close.IH by (rule bind_op_ok)
next
  case (transact g k d c opts)
  have "world_ok (snd (Transact drv d c opts g w))"
    using transact.IH(1) transact.prems by (rule Transact_world_ok)
  then show ?case using transact.IH(2) by (rule bind_op_ok)
qed

lemma handle_ok_levels:
  assumes "handle_ok h"
  shows "(tx h \<noteq> None) = (1 \<le> sint (txLevel h)) \<and> sint (txLevel h) \<le> 1 \<and>
         0 \<le> sint (txLevel h)"
  using assms by (auto simp: handle_ok_def split: option.splits)


lemma work_exec_bind:
  "work_exec drv a = bind_op (Exec drv a 0 ''SELECT 1'' Nil) result_error"
  by (rule ext)
     (simp add: work_exec_def bind_op_def result_error_def
           split: prod.splits outcome.splits sum.splits)

lemma client_work_exec: "client drv (work_exec drv a)"
  unfolding work_exec_bind
proof (rule client.exec)
  fix r
  have "result_error r = (\<lambda>w. (case r of
        Returns (Inl err) \<Rightarrow> Returns (Some err)
      | Returns (Inr x) \<Rightarrow> Returns None
      | Panics \<Rightarrow> Panics
      | Blocks \<Rightarrow> Blocks, w))"
    by (rule ext) (simp add: result_error_def split: outcome.splits sum.splits)
  then show "client drv (result_error r)"
    by (simp add: client.ret)
qed

lemma client_example_prog: "client drv_ok example_prog"
  unfolding example_prog_def
  by (intro client.new client.stmt client.transact client_work_exec client.ret)

lemma New_empty_world: "New (Some 0) empty_world = (0, root_world)"
  by (simp add: root_world_def New_def alloc_handle_def empty_world_def)

lemma Transact_cached_world:
  "handles (snd (Transact drv_ok 0 0 (0, False) (work_exec drv_ok) cached_world)) =
     [root_handle, child root_handle 1 1]"
proof -
  have h: "deref (handles cached_world) 0 = Some root_handle"
    by (simp add: cached_world_def deref_def)
  have "tx root_handle = None" and "X root_handle = Some 0"
    by (simp_all add: root_handle_def)
  from Transact_begun [OF h this BeginTxx_cached_world]
  have "Transact drv_ok 0 0 (0, False) (work_exec drv_ok) cached_world =
      Transact_end drv_ok 1 (txLevel root_handle + 1) (work_exec drv_ok 1 cached_tx_world)"
    unfolding begun_cached_world by simp
  then show ?thesis
    by (simp add: Transact_end_handles work_exec_handles cached_tx_world_sel)
qed

lemma example_prog_handles:
  "handles (snd (example_prog empty_world)) = [root_handle, child root_handle 1 1]"
  by (simp add: example_prog_def bind_op_def New_empty_world Stmt_root_world
        Transact_cached_world split: prod.splits)

text \<open>
  Claim C10. \<^verbatim>\<open>New\<close> builds a struct with no transaction and depth 0. When \<^verbatim>\<open>Transact\<close>
  begins a transaction, the struct it hands to the unit of work holds that transaction
  and has the depth of the parent plus one. And for every caller of the public API,
  started in a state whose structs all satisfy the invariant (the empty heap does), every
  struct on the heap afterwards has a transaction exactly when its depth is at least 1,
  and its depth is 0 or 1.
\<close>

theorem reachable_handles:
  assumes "client drv p" and "world_ok w" and "deref (handles (snd (p w))) a = Some h"
  shows "(tx h \<noteq> None) = (1 \<le> sint (txLevel h)) \<and>
         sint (txLevel h) \<le> 1 \<and> 0 \<le> sint (txLevel h) \<and>
         (\<forall>dbx w0. deref (handles (snd (New dbx w0))) (fst (New dbx w0)) =
            Some \<lparr>X = dbx, tx = None, txLevel = 0,
                  stmtsMtx = Some (length (mutexes w0)), stmts = Some (length (maps w0))\<rparr>) \<and>
         (\<forall>d h0 x c opts t f w0.
            deref (handles w0) d = Some h0 \<and> tx h0 = None \<and> X h0 = Some x \<and>
            BeginTxx drv (trace w0) x c opts = Inr t \<longrightarrow>
            (\<exists>a' w2. Transact drv d c opts f w0 =
                        Transact_end drv t (txLevel h0 + 1) (f a' w2) \<and>
                      map_option tx (deref (handles w2) a') = Some (Some t) \<and>
                      map_option txLevel (deref (handles w2) a') = Some (txLevel h0 + 1)))"
proof -
  have "world_ok (snd (p w))"
    using assms(1,2) by (rule client_world_ok)
  then have "handle_ok h"
    using assms(3) by (rule world_ok_deref)
  then have 1: "(tx h \<noteq> None) = (1 \<le> sint (txLevel h)) \<and>
         sint (txLevel h) \<le> 1 \<and> 0 \<le> sint (txLevel h)"
    by (rule handle_ok_levels)
  have 2: "deref (handles (snd (New dbx w0))) (fst (New dbx w0)) =
            Some \<lparr>X = dbx, tx = None, txLevel = 0,
                  stmtsMtx = Some (length (mutexes w0)), stmts = Some (length (maps w0))\<rparr>"
    for dbx w0
    by (simp add: New_def alloc_handle_def deref_def)
  have 3: "\<exists>a' w2. Transact drv d c opts f w0 =
                        Transact_end drv t (txLevel h0 + 1) (f a' w2) \<and>
                      map_option tx (deref (handles w2) a') = Some (Some t) \<and>
                      map_option txLevel (deref (handles w2) a') = Some (txLevel h0 + 1)"
    if "deref (handles w0) d = Some h0 \<and> tx h0 = None \<and> X h0 = Some x \<and>
        BeginTxx drv (trace w0) x c opts = Inr t" for d h0 x c opts t f w0
  proof -
    from that have a: "deref (handles w0) d = Some h0" "tx h0 = None" "X h0 = Some x"
      "BeginTxx drv (trace w0) x c opts = Inr t"
      by simp_all
    obtain a' w2 where b: "begun h0 x c opts t w0 = (a', w2)"
      by (cases "begun h0 x c opts t w0")
    have "Transact drv d c opts f w0 = Transact_end drv t (txLevel h0 + 1) (f a' w2)"
      unfolding Transact_begun [OF a] b by simp
    moreover have "map_option tx (deref (handles w2) a') = Some (Some t)"
      and "map_option txLevel (deref (handles w2) a') = Some (txLevel h0 + 1)"
      using b by (auto simp: begun_def alloc_handle_def log_def deref_def child_def)
    ultimately show ?thesis by blast
  qed
  from 1 2 3 show ?thesis by blast
qed

theorem reachable_handles_witness:
  "client drv_ok example_prog \<and> world_ok empty_world \<and>
   deref (handles (snd (example_prog empty_world))) 0 = Some root_handle \<and>
   deref (handles (snd (example_prog empty_world))) 1 = Some (child root_handle 1 1) \<and>
   tx root_handle = None \<and> sint (txLevel root_handle) = 0 \<and>
   tx (child root_handle 1 1) = Some 1 \<and> sint (txLevel (child root_handle 1 1)) = 1"
proof -
  have e: "world_ok empty_world"
    by (simp add: world_ok_def empty_world_def)
  have d0: "deref (handles (snd (example_prog empty_world))) 0 = Some root_handle"
    and d1: "deref (handles (snd (example_prog empty_world))) 1 = Some (child root_handle 1 1)"
    by (simp_all add: example_prog_handles deref_def)
  have t0: "tx root_handle = None" and t1: "tx (child root_handle 1 1) = Some 1"
    by (simp_all add: root_handle_def child_def)
  from reachable_handles [OF client_example_prog e d0] t0
  have l0: "sint (txLevel root_handle) = 0"
    by simp
  from reachable_handles [OF client_example_prog e d1] t1
  have l1: "sint (txLevel (child root_handle 1 1)) = 1"
    by simp
  from client_example_prog e d0 d1 t0 t1 l0 l1 show ?thesis by simp
qed

end
